theory Spec2Isabelle
  imports Main "HOL-Library.Sublist"
begin

section \<open>Python values, ordered dictionaries, string helpers\<close>

text \<open>
  The module \<^verbatim>\<open>ugali/utils/batch.py\<close> works on option values that are strings,
  integers or \<^verbatim>\<open>None\<close>. All three are immutable in Python.
\<close>

datatype pyval = VNone | VInt int | VStr string

text \<open>
  An \<^verbatim>\<open>OrderedDict\<close> (and a keyword dictionary, read in its iteration order) is the
  list of its items; the keys of a dictionary are pairwise different.
\<close>

type_synonym odict = "(string \<times> pyval) list"

definition odict_keys :: "odict \<Rightarrow> string list" where
  "odict_keys d = map fst d"

text \<open>\<^verbatim>\<open>d.get(k)\<close>: the value, \<^verbatim>\<open>None\<close> for a missing key.\<close>

definition odict_get :: "odict \<Rightarrow> string \<Rightarrow> pyval" where
  "odict_get d k = (case map_of d k of None \<Rightarrow> VNone | Some v \<Rightarrow> v)"

text \<open>\<^verbatim>\<open>d[k] = v\<close>: an existing key keeps its position, a new key goes last.\<close>

fun odict_setitem :: "odict \<Rightarrow> string \<Rightarrow> pyval \<Rightarrow> odict" where
  "odict_setitem [] k v = [(k, v)]"
| "odict_setitem ((k', v') # d) k v =
     (if k' = k then (k, v) # d else (k', v') # odict_setitem d k v)"

text \<open>\<^verbatim>\<open>d.update(e)\<close>: one \<^verbatim>\<open>d[k] = v\<close> per item of \<^verbatim>\<open>e\<close>, in the order of \<^verbatim>\<open>e\<close>.\<close>

fun odict_update :: "odict \<Rightarrow> odict \<Rightarrow> odict" where
  "odict_update d [] = d"
| "odict_update d ((k, v) # e) = odict_update (odict_setitem d k v) e"

text \<open>\<^verbatim>\<open>d.setdefault(k, v)\<close>, used for its effect on \<^verbatim>\<open>d\<close>.\<close>

definition odict_setdefault :: "odict \<Rightarrow> string \<Rightarrow> pyval \<Rightarrow> odict" where
  "odict_setdefault d k v = (if k \<in> set (odict_keys d) then d else d @ [(k, v)])"

text \<open>\<^verbatim>\<open>d.pop(k, None)\<close>: the value (or \<^verbatim>\<open>None\<close>) and the dictionary without the key.\<close>

definition odict_pop :: "odict \<Rightarrow> string \<Rightarrow> pyval \<times> odict" where
  "odict_pop d k = (odict_get d k, filter (\<lambda>kv. fst kv \<noteq> k) d)"

text \<open>Truth value of an object in a condition.\<close>

fun truthy :: "pyval \<Rightarrow> bool" where
  "truthy VNone = False"
| "truthy (VInt i) = (i \<noteq> 0)"
| "truthy (VStr s) = (s \<noteq> [])"

text \<open>Decimal notation, as \<^verbatim>\<open>%s\<close> and \<^verbatim>\<open>%i\<close> print an integer.\<close>

definition digit :: "nat \<Rightarrow> char" where
  "digit n = ''0123456789'' ! n"

fun str_of_nat :: "nat \<Rightarrow> string" where
  "str_of_nat n =
     (if n < 10 then [digit n] else str_of_nat (n div 10) @ [digit (n mod 10)])"

definition str_of_int :: "int \<Rightarrow> string" where
  "str_of_int i = (if i < 0 then CHR ''-'' # str_of_nat (nat (- i)) else str_of_nat (nat i))"

text \<open>\<^verbatim>\<open>'%s' % v\<close>.\<close>

fun py_str :: "pyval \<Rightarrow> string" where
  "py_str VNone = ''None''"
| "py_str (VInt i) = str_of_int i"
| "py_str (VStr s) = s"

text \<open>\<^verbatim>\<open>s.lower()\<close> on the ASCII letters.\<close>

definition lower_char :: "char \<Rightarrow> char" where
  "lower_char c =
     (case map_of (zip ''ABCDEFGHIJKLMNOPQRSTUVWXYZ'' ''abcdefghijklmnopqrstuvwxyz'') c of
        None \<Rightarrow> c
      | Some l \<Rightarrow> l)"

definition lower :: "string \<Rightarrow> string" where
  "lower s = map lower_char s"

text \<open>The line feed.\<close>

definition NL :: char where
  "NL = CHR 0x0A"

section \<open>The module tables\<close>

text \<open>
  \<^verbatim>\<open>CLUSTERS\<close>, \<^verbatim>\<open>QUEUES\<close>, \<^verbatim>\<open>RUNLIMITS\<close> and \<^verbatim>\<open>MPIOPTS\<close>. The source only reads them
  (subscripts, \<^verbatim>\<open>values()\<close>, list concatenation, which builds a new list). The last two
  have the key \<^verbatim>\<open>None\<close> for their default entry, so their keys are values.
\<close>

definition CLUSTERS :: "(string \<times> string list) list" where
  "CLUSTERS =
     [(''local'', [''local'']),
      (''lsf'', [''lsf'', ''slac'', ''kipac'']),
      (''slurm'', [''slurm'', ''midway'', ''kicp'']),
      (''condor'', [''condor'', ''fnal''])]"

definition QUEUES :: "(string \<times> string list) list" where
  "QUEUES =
     [(''local'', []),
      (''lsf'', [''express'', ''short'', ''medium'', ''long'', ''xlong'', ''xxl'',
                 ''kipac-ibq'', ''bulletmpi'']),
      (''slurm'', []),
      (''condor'', [''local'', ''vanilla'', ''universe'', ''grid''])]"

definition RUNLIMITS :: "(pyval \<times> string) list" where
  "RUNLIMITS =
     [(VNone, ''4:00''),
      (VStr ''express'', ''0:04''),
      (VStr ''short'', ''0:30''),
      (VStr ''medium'', ''1:00''),
      (VStr ''long'', ''4:00''),
      (VStr ''xlong'', ''72:00''),
      (VStr ''xxl'', ''168:00''),
      (VStr ''kipac-ibq'', ''36:00''),
      (VStr ''bulletmpi'', ''36:00'')]"

definition MPIOPTS :: "(pyval \<times> string) list" where
  "MPIOPTS =
     [(VNone, '' -R \"span[ptile=4]\"''),
      (VStr ''local'', ''''),
      (VStr ''short'', ''''),
      (VStr ''medium'', ''''),
      (VStr ''kipac-ibq'', '' -R \"span[ptile=8]\"''),
      (VStr ''bulletmpi'', '' -R \"span[ptile=16]\"'')]"

section \<open>Errors, the heap of dictionaries, the environment\<close>

text \<open>
  \<^verbatim>\<open>Exception\<close>, \<^verbatim>\<open>TypeError\<close> and \<^verbatim>\<open>ValueError\<close> carry their message. The
  \<^verbatim>\<open>TypeError\<close> that an operator raises on operands it does not support is
  \<open>UnsupportedOperands\<close> with the operator, \<^verbatim>\<open>KeyError\<close> carries the key and
  \<^verbatim>\<open>AttributeError\<close> the attribute.
\<close>

datatype error =
    Exception string
  | TypeError string
  | ValueError string
  | UnsupportedOperands string
  | KeyError string
  | AttributeError string

text \<open>
  Dictionaries are objects and are passed by reference, so they live in a heap: a list
  whose positions are the addresses. The first three cells hold the class attributes
  \<^verbatim>\<open>Batch._defaults\<close> (which \<^verbatim>\<open>Local\<close> and \<^verbatim>\<open>Condor\<close> inherit), \<^verbatim>\<open>LSF._defaults\<close> and
  \<^verbatim>\<open>Slurm._defaults\<close>. A keyword dictionary (\<^verbatim>\<open>**kwargs\<close>, \<^verbatim>\<open>**opts\<close>) is built anew
  for every call and is passed by value.

  The rest of the environment: the operating-system user, the number of queue listings
  run so far, the messages logged, the sleeps done and the commands run.
\<close>

type_synonym addr = nat

datatype level = Debug | Info | Warning

record world =
  heap :: "odict list"
  os_user :: string
  popens :: nat
  logged :: "(level \<times> string) list"
  slept :: "int list"
  called :: "string list"

definition Batch_defaults :: odict where
  "Batch_defaults = []"

definition LSF_defaults :: odict where
  "LSF_defaults = [(''R'', VStr ''\"scratch > 1 && rhel60\"''), (''C'', VInt 0)]"

definition Slurm_defaults :: odict where
  "Slurm_defaults =
     [(''account'', VStr ''kicp''), (''partition'', VStr ''kicp-ht''), (''mem'', VInt 10000)]"

definition class_dicts :: "odict list" where
  "class_dicts = [Batch_defaults, LSF_defaults, Slurm_defaults]"

text \<open>The state of a freshly imported module.\<close>

definition initial_world :: "string \<Rightarrow> world" where
  "initial_world user =
     \<lparr>heap = class_dicts, os_user = user, popens = 0, logged = [], slept = [], called = []\<rparr>"

text \<open>
  Reading a dictionary object, replacing its items, creating a new object. A reference
  in Python always points to an object that exists: addresses come from \<open>alloc\<close> or are
  those of the class attributes, and the statements say so (\<open>valid\<close>, \<open>pristine\<close>) where
  they read a cell.
\<close>

definition at :: "world \<Rightarrow> addr \<Rightarrow> odict" where
  "at w a = heap w ! a"

definition store :: "addr \<Rightarrow> odict \<Rightarrow> world \<Rightarrow> world" where
  "store a d w = w\<lparr>heap := (heap w)[a := d]\<rparr>"

definition alloc :: "odict \<Rightarrow> world \<Rightarrow> addr \<times> world" where
  "alloc d w = (length (heap w), w\<lparr>heap := heap w @ [d]\<rparr>)"

definition log :: "level \<Rightarrow> string \<Rightarrow> world \<Rightarrow> world" where
  "log l msg w = w\<lparr>logged := logged w @ [(l, msg)]\<rparr>"

section \<open>The backends\<close>

datatype cls = Local | LSF | Slurm | Condor

text \<open>
  A command template such as \<^verbatim>\<open>"bsub %(opts)s %(command)s"\<close> is the list of its
  pieces; \<^verbatim>\<open>template % params\<close> fills them in.
\<close>

datatype piece = Lit string | Opts | Command

fun fill :: "piece list \<Rightarrow> string \<Rightarrow> string \<Rightarrow> string" where
  "fill [] opts command = []"
| "fill (Lit s # t) opts command = s @ fill t opts command"
| "fill (Opts # t) opts command = opts @ fill t opts command"
| "fill (Command # t) opts command = command @ fill t opts command"

record Batch =
  cls :: cls
  username :: string
  max_jobs :: pyval
  default_opts :: addr
  submit_cmd :: "piece list"
  jobs_cmd :: string

text \<open>The class attributes \<^verbatim>\<open>_defaults\<close> (an address) and \<^verbatim>\<open>_mapping\<close> (only read).\<close>

fun defaults_of :: "cls \<Rightarrow> addr" where
  "defaults_of Local = 0"
| "defaults_of LSF = 1"
| "defaults_of Slurm = 2"
| "defaults_of Condor = 0"

fun mapping_of :: "cls \<Rightarrow> (string \<times> string) list" where
  "mapping_of LSF = [(''jobname'', ''J''), (''logfile'', ''oo'')]"
| "mapping_of c = []"

text \<open>
  \<^verbatim>\<open>Batch.__init__\<close>. \<^verbatim>\<open>copy.deepcopy\<close> creates a new dictionary object; its values are
  immutable, so the copy shares nothing with the original.
\<close>

definition Batch_init :: "cls \<Rightarrow> odict \<Rightarrow> world \<Rightarrow> Batch \<times> world" where
  "Batch_init c kwargs w =
     (let user = os_user w;
          (mj, kwargs) = odict_pop kwargs ''max_jobs'';
          (a, w) = alloc (at w (defaults_of c)) w;
          w = store a (odict_update (at w a) kwargs) w
      in (\<lparr>cls = c, username = user, max_jobs = mj, default_opts = a,
           submit_cmd = [Lit ''submit '', Opts, Lit '' '', Command],
           jobs_cmd = ''jobs''\<rparr>, w))"

definition Local_init :: "odict \<Rightarrow> world \<Rightarrow> Batch \<times> world" where
  "Local_init kwargs w =
     (let (self, w) = Batch_init Local kwargs w
      in (self\<lparr>jobs_cmd := ''echo 0'', submit_cmd := [Command, Lit '' '', Opts]\<rparr>, w))"

definition LSF_init :: "odict \<Rightarrow> world \<Rightarrow> Batch \<times> world" where
  "LSF_init kwargs w =
     (let (self, w) = Batch_init LSF kwargs w
      in (self\<lparr>jobs_cmd := ''bjobs -u '' @ username self,
                submit_cmd := [Lit ''bsub '', Opts, Lit '' '', Command]\<rparr>, w))"

definition Slurm_init :: "odict \<Rightarrow> world \<Rightarrow> Batch \<times> world" where
  "Slurm_init kwargs w =
     (let (self, w) = Batch_init Slurm kwargs w;
          w = log Warning ''Slurm cluster is untested'' w
      in (self\<lparr>jobs_cmd := ''squeue -u '' @ username self,
                submit_cmd := [Lit ''sbatch '', Opts, Lit '' '', Command]\<rparr>, w))"

definition Condor_init :: "odict \<Rightarrow> world \<Rightarrow> Batch \<times> world" where
  "Condor_init kwargs w =
     (let (self, w) = Batch_init Condor kwargs w;
          w = log Warning ''Condor cluster is untested'' w
      in (self\<lparr>jobs_cmd := ''condor_q -u '' @ username self,
                submit_cmd := [Lit ''csub '', Opts, Lit '' '', Command]\<rparr>, w))"

subsection \<open>The factory\<close>

text \<open>
  \<^verbatim>\<open>CLUSTERS[c]\<close> and \<^verbatim>\<open>QUEUES[c]\<close> for the four literal keys the factory uses, all of
  them present in both tables.
\<close>

definition names_of :: "(string \<times> string list) list \<Rightarrow> string \<Rightarrow> string list" where
  "names_of table c = (case map_of table c of None \<Rightarrow> [] | Some ns \<Rightarrow> ns)"

definition factory :: "string option \<Rightarrow> odict \<Rightarrow> world \<Rightarrow> (error + Batch) \<times> world" where
  "factory queue kwargs w =
     (let queue = (case queue of None \<Rightarrow> ''local'' | Some q \<Rightarrow> q);
          name = lower queue;
          kwargs = (if name \<in> set (concat (map snd QUEUES))
                    then odict_setdefault kwargs ''q'' (VStr name) else kwargs)
      in if name \<in> set (names_of CLUSTERS ''local'' @ names_of QUEUES ''local'')
         then (let (b, w) = Local_init kwargs w in (Inr b, w))
         else if name \<in> set (names_of CLUSTERS ''lsf'' @ names_of QUEUES ''lsf'')
         then (let (b, w) = LSF_init kwargs w in (Inr b, w))
         else if name \<in> set (names_of CLUSTERS ''slurm'' @ names_of QUEUES ''slurm'')
         then (let (b, w) = Slurm_init kwargs w in (Inr b, w))
         else if name \<in> set (names_of CLUSTERS ''condor'' @ names_of QUEUES ''condor'')
         then (let (b, w) = Condor_init kwargs w
               in (Inl (Exception ''Condor cluster not implemented''), w))
         else (Inl (TypeError (''Unexpected queue name: '' @ name)), w))"

subsection \<open>Counting jobs and throttling\<close>

text \<open>
  The output of the external queue-listing command is not determined by the program:
  \<open>sh cmd i\<close> is what the \<open>i\<close>-th listing prints when it runs \<open>cmd\<close>. \<^verbatim>\<open>Batch.popen\<close>
  opens the pipe without a text mode, so \<^verbatim>\<open>communicate()[0]\<close>, the result of \<^verbatim>\<open>jobs\<close>,
  is a \<^verbatim>\<open>bytes\<close> object (Python 3).
\<close>

type_synonym bytes = string

definition jobs :: "Batch \<Rightarrow> (string \<Rightarrow> nat \<Rightarrow> bytes) \<Rightarrow> world \<Rightarrow> bytes \<times> world" where
  "jobs self sh w = (sh (jobs_cmd self) (popens w), w\<lparr>popens := Suc (popens w)\<rparr>)"

text \<open>
  \<^verbatim>\<open>len(jobs.strip().split('\n'))-1 if jobs else 0\<close>. A \<^verbatim>\<open>bytes\<close> object is true when it is
  not empty, and its \<^verbatim>\<open>strip()\<close> is a \<^verbatim>\<open>bytes\<close> object again; \<^verbatim>\<open>split\<close> of a \<^verbatim>\<open>bytes\<close>
  object with the \<^verbatim>\<open>str\<close> separator \<^verbatim>\<open>'\n'\<close> raises the \<^verbatim>\<open>TypeError\<close> below, so the lines
  of a non-empty listing are never counted.
\<close>

definition bytes_split_error :: error where
  "bytes_split_error =
     TypeError (''a bytes-like object is required, not '' @ [CHR 0x27] @ ''str'' @ [CHR 0x27])"

definition Batch_njobs ::
  "Batch \<Rightarrow> (string \<Rightarrow> nat \<Rightarrow> bytes) \<Rightarrow> world \<Rightarrow> (error + int) \<times> world" where
  "Batch_njobs self sh w =
     (let (out, w) = jobs self sh w
      in if out \<noteq> [] then (Inl bytes_split_error, w) else (Inr 0, w))"

definition Local_njobs ::
  "Batch \<Rightarrow> (string \<Rightarrow> nat \<Rightarrow> bytes) \<Rightarrow> world \<Rightarrow> (error + int) \<times> world" where
  "Local_njobs self sh w = (Inr 0, w)"

text \<open>\<^verbatim>\<open>self.njobs()\<close>: \<^verbatim>\<open>Local\<close> overrides the method, the other classes inherit it.\<close>

definition njobs ::
  "Batch \<Rightarrow> (string \<Rightarrow> nat \<Rightarrow> bytes) \<Rightarrow> world \<Rightarrow> (error + int) \<times> world" where
  "njobs self sh w = (if cls self = Local then Local_njobs self sh w else Batch_njobs self sh w)"

text \<open>
  The \<^verbatim>\<open>while True\<close> loop of \<^verbatim>\<open>throttle\<close>, for an integer ceiling. It has no bound, so
  its result is optional: \<open>None\<close> means that it never returns. An exception of
  \<^verbatim>\<open>njobs\<close> ends it, and so does \<^verbatim>\<open>time.sleep\<close>, which raises \<^verbatim>\<open>ValueError\<close> for a
  negative length after the message has been logged.
\<close>

partial_function (option) throttle_loop ::
  "Batch \<Rightarrow> (string \<Rightarrow> nat \<Rightarrow> bytes) \<Rightarrow> int \<Rightarrow> int \<Rightarrow> world
     \<Rightarrow> ((error + unit) \<times> world) option" where
  "throttle_loop self sh ceiling sleep w =
     (case njobs self sh w of
        (Inl e, w') \<Rightarrow> Some (Inl e, w')
      | (Inr n, w') \<Rightarrow>
          if n < ceiling then Some (Inr (), w')
          else (let w' = log Info (str_of_int n @ '' jobs already in queue, waiting...'') w'
                in if sleep < 0
                   then Some (Inl (ValueError ''sleep length must be non-negative''), w')
                   else throttle_loop self sh ceiling sleep (w'\<lparr>slept := slept w' @ [sleep]\<rparr>)))"

declare throttle_loop.simps [code]

text \<open>
  \<^verbatim>\<open>throttle(max_jobs, sleep)\<close>. With a string as ceiling, the comparison
  \<^verbatim>\<open>njobs < max_jobs\<close> of the first round raises (Python 3), unless \<^verbatim>\<open>njobs\<close> has
  raised before.
\<close>

definition throttle ::
  "Batch \<Rightarrow> (string \<Rightarrow> nat \<Rightarrow> bytes) \<Rightarrow> pyval \<Rightarrow> int \<Rightarrow> world
     \<Rightarrow> ((error + unit) \<times> world) option" where
  "throttle self sh mj sleep w =
     (let mj = (if mj = VNone then max_jobs self else mj)
      in case mj of
           VNone \<Rightarrow> Some (Inr (), w)
         | VInt ceiling \<Rightarrow> throttle_loop self sh ceiling sleep w
         | VStr s \<Rightarrow>
             (case njobs self sh w of
                (Inl e, w') \<Rightarrow> Some (Inl e, w')
              | (Inr n, w') \<Rightarrow> Some (Inl (UnsupportedOperands ''<''), w')))"

subsection \<open>Options and command lines\<close>

text \<open>
  \<^verbatim>\<open>remap_options\<close>: the loop over \<^verbatim>\<open>self._mapping\<close>, on the caller's keyword
  dictionary, which is returned.
\<close>

fun remap_loop :: "(string \<times> string) list \<Rightarrow> odict \<Rightarrow> odict" where
  "remap_loop [] opts = opts"
| "remap_loop ((k, k') # m) opts =
     (let (v, opts) = odict_pop opts k
      in remap_loop m (if v \<noteq> VNone then odict_setitem opts k' v else opts))"

definition remap_options :: "Batch \<Rightarrow> odict \<Rightarrow> odict" where
  "remap_options self opts = remap_loop (mapping_of (cls self)) opts"

text \<open>\<^verbatim>\<open>LSF.runlimit\<close> and \<^verbatim>\<open>LSF.mpiopts\<close>: the entry of the queue, else the entry of \<^verbatim>\<open>None\<close>.\<close>

definition runlimit :: "pyval \<Rightarrow> error + string" where
  "runlimit queue =
     (case map_of RUNLIMITS queue of
        Some t \<Rightarrow> Inr t
      | None \<Rightarrow> (case map_of RUNLIMITS VNone of
                   Some t \<Rightarrow> Inr t
                 | None \<Rightarrow> Inl (KeyError ''None'')))"

definition mpiopts :: "pyval \<Rightarrow> error + string" where
  "mpiopts queue =
     (case map_of MPIOPTS queue of
        Some t \<Rightarrow> Inr t
      | None \<Rightarrow> (case map_of MPIOPTS VNone of
                   Some t \<Rightarrow> Inr t
                 | None \<Rightarrow> Inl (KeyError ''None'')))"

text \<open>
  \<^verbatim>\<open>''.join('-%s %s '%(k,v) for k,v in options.items())\<close>, with the dashes that
  the backend puts before a key.
\<close>

definition join_options :: "string \<Rightarrow> odict \<Rightarrow> string" where
  "join_options dashes options =
     concat (map (\<lambda>(k, v). dashes @ k @ '' '' @ py_str v @ '' '') options)"

definition Local_parse_options :: "Batch \<Rightarrow> odict \<Rightarrow> world \<Rightarrow> (error + string) \<times> world" where
  "Local_parse_options self opts w =
     (if truthy (odict_get opts ''logfile'')
      then (Inr ('' 2>&1 | tee '' @ py_str (odict_get opts ''logfile'')), w)
      else (Inr [], w))"

text \<open>
  The statement \<^verbatim>\<open>options['R'] += self.mpiopts(options.get('q'))\<close> on the dictionary
  object \<open>options\<close>: read the item, evaluate the right-hand side, add, write the item.
\<close>

definition add_mpiopts :: "addr \<Rightarrow> world \<Rightarrow> (error + unit) \<times> world" where
  "add_mpiopts options w =
     (case map_of (at w options) ''R'' of
        None \<Rightarrow> (Inl (KeyError ''R''), w)
      | Some r \<Rightarrow>
          (case mpiopts (odict_get (at w options) ''q'') of
             Inl e \<Rightarrow> (Inl e, w)
           | Inr m \<Rightarrow>
               (case r of
                  VStr s \<Rightarrow> (Inr (), store options (odict_setitem (at w options) ''R'' (VStr (s @ m))) w)
                | VInt i \<Rightarrow> (Inl (UnsupportedOperands ''+=''), w)
                | VNone \<Rightarrow> (Inl (UnsupportedOperands ''+=''), w))))"

text \<open>\<^verbatim>\<open>LSF.parse_options\<close>; \<^verbatim>\<open>odict(self.default_opts)\<close> creates a new dictionary object.\<close>

definition LSF_parse_options :: "Batch \<Rightarrow> odict \<Rightarrow> world \<Rightarrow> (error + string) \<times> world" where
  "LSF_parse_options self opts w =
     (let (options, w) = alloc (at w (default_opts self)) w;
          w = store options (odict_update (at w options) opts) w
      in case (if ''n'' \<in> set (odict_keys (at w options)) then add_mpiopts options w
               else (Inr (), w)) of
           (Inl e, w) \<Rightarrow> (Inl e, w)
         | (Inr u, w) \<Rightarrow>
             (case runlimit (odict_get (at w options) ''q'') of
                Inl e \<Rightarrow> (Inl e, w)
              | Inr t \<Rightarrow>
                  (let w = store options (odict_setdefault (at w options) ''W'' (VStr t)) w
                   in (Inr (join_options ''-'' (at w options)), w))))"

definition Slurm_parse_options :: "Batch \<Rightarrow> odict \<Rightarrow> world \<Rightarrow> (error + string) \<times> world" where
  "Slurm_parse_options self opts w =
     (let (options, w) = alloc (at w (default_opts self)) w;
          w = store options (odict_update (at w options) opts) w
      in (Inr (join_options ''--'' (at w options)), w))"

text \<open>\<^verbatim>\<open>self.parse_options(**opts)\<close>; neither \<^verbatim>\<open>Batch\<close> nor \<^verbatim>\<open>Condor\<close> defines the method.\<close>

definition parse_options :: "Batch \<Rightarrow> odict \<Rightarrow> world \<Rightarrow> (error + string) \<times> world" where
  "parse_options self opts w =
     (case cls self of
        Local \<Rightarrow> Local_parse_options self opts w
      | LSF \<Rightarrow> LSF_parse_options self opts w
      | Slurm \<Rightarrow> Slurm_parse_options self opts w
      | Condor \<Rightarrow> (Inl (AttributeError ''parse_options''), w))"

text \<open>\<^verbatim>\<open>Batch.batch(command, jobname, logfile, **opts)\<close>\<close>

definition batch ::
  "Batch \<Rightarrow> string \<Rightarrow> pyval \<Rightarrow> pyval \<Rightarrow> odict \<Rightarrow> world \<Rightarrow> (error + string) \<times> world" where
  "batch self command jobname logfile opts w =
     (let opts = (if truthy jobname then odict_update opts [(''jobname'', jobname)] else opts);
          opts = (if truthy logfile then odict_update opts [(''logfile'', logfile)] else opts);
          opts = remap_options self opts
      in case parse_options self opts w of
           (Inl e, w) \<Rightarrow> (Inl e, w)
         | (Inr s, w) \<Rightarrow> (Inr (fill (submit_cmd self) s command), w))"

text \<open>\<^verbatim>\<open>Batch.call\<close>: log the command and run it; \<^verbatim>\<open>submit\<close> ignores the exit status.\<close>

definition call :: "string \<Rightarrow> world \<Rightarrow> world" where
  "call command w = (log Debug command w)\<lparr>called := called w @ [command]\<rparr>"

text \<open>\<^verbatim>\<open>Batch.submit\<close>; it calls \<^verbatim>\<open>self.throttle()\<close> with the defaults \<^verbatim>\<open>None\<close> and 60.\<close>

definition submit ::
  "Batch \<Rightarrow> (string \<Rightarrow> nat \<Rightarrow> bytes) \<Rightarrow> string \<Rightarrow> pyval \<Rightarrow> pyval \<Rightarrow> odict \<Rightarrow> world
     \<Rightarrow> ((error + string) \<times> world) option" where
  "submit self sh command jobname logfile opts w =
     (case batch self command jobname logfile opts w of
        (Inl e, w) \<Rightarrow> Some (Inl e, w)
      | (Inr cmd, w) \<Rightarrow>
          (case throttle self sh VNone 60 w of
             None \<Rightarrow> None
           | Some (Inl e, w) \<Rightarrow> Some (Inl e, w)
           | Some (Inr u, w) \<Rightarrow> Some (Inr cmd, call cmd w)))"

section \<open>Notions used in the statements\<close>

text \<open>
  The class attributes hold the dictionaries the source gives them, and an instance
  refers to a dictionary object that exists.
\<close>

definition pristine :: "world \<Rightarrow> bool" where
  "pristine w = (take 3 (heap w) = class_dicts)"

definition valid :: "Batch \<Rightarrow> world \<Rightarrow> bool" where
  "valid self w = (default_opts self < length (heap w))"

text \<open>A listing of the lines \<open>ls\<close>, each ended by a line feed.\<close>

definition listing :: "string list \<Rightarrow> bytes" where
  "listing ls = concat (map (\<lambda>l. l @ [NL]) ls)"

text \<open>The names of one backend family, as the factory tests them.\<close>

definition family :: "string \<Rightarrow> string list" where
  "family c = names_of CLUSTERS c @ names_of QUEUES c"

subsection \<open>A worked example\<close>

text \<open>
  An \<^verbatim>\<open>LSF\<close> backend with the ceiling 2, as \<^verbatim>\<open>LSF(max_jobs=2)\<close> creates it in a fresh
  module; a queue that always lists three jobs under its header line and one that lists
  a single job from the third listing on; the command line of \<^verbatim>\<open>batch('run')\<close> and the
  environment after that call.
\<close>

definition example_lsf :: Batch where
  "example_lsf =
     \<lparr>cls = LSF, username = ''me'', max_jobs = VInt 2, default_opts = 3,
      submit_cmd = [Lit ''bsub '', Opts, Lit '' '', Command], jobs_cmd = ''bjobs -u me''\<rparr>"

definition example_world :: world where
  "example_world = (initial_world ''me'')\<lparr>heap := class_dicts @ [LSF_defaults]\<rparr>"

definition busy_queue :: "string \<Rightarrow> nat \<Rightarrow> bytes" where
  "busy_queue cmd i = listing [''JOBID'', ''101'', ''102'', ''103'']"

definition draining_queue :: "string \<Rightarrow> nat \<Rightarrow> bytes" where
  "draining_queue cmd i =
     (if i < 2 then listing [''JOBID'', ''101'', ''102'', ''103''] else listing [''JOBID'', ''101''])"

definition example_cmd :: string where
  "example_cmd = ''bsub -R \"scratch > 1 && rhel60\" -C 0 -W 4:00  run''"

definition example_world' :: world where
  "example_world' =
     example_world\<lparr>heap := heap example_world @ [LSF_defaults @ [(''W'', VStr ''4:00'')]]\<rparr>"

text \<open>
  Every dictionary object of \<open>w\<close> is still there in \<open>w'\<close>, at its address and with the
  same items; \<open>w'\<close> may have new objects.
\<close>

definition keeps_dicts :: "world \<Rightarrow> world \<Rightarrow> bool" where
  "keeps_dicts w w' = prefix (heap w) (heap w')"

section \<open>Properties of the helpers\<close>

subsection \<open>Ordered dictionaries\<close>

lemma map_of_setitem: "map_of (odict_setitem d k v) = (map_of d)(k \<mapsto> v)"
  by (induction d) (auto simp: fun_eq_iff)

lemma keys_setitem:
  "odict_keys (odict_setitem d k v) =
     (if k \<in> set (odict_keys d) then odict_keys d else odict_keys d @ [k])"
  by (induction d) (force simp: odict_keys_def)+

lemma map_of_update:
  "distinct (odict_keys e) \<Longrightarrow>
   map_of (odict_update d e) k = (case map_of e k of Some v \<Rightarrow> Some v | None \<Rightarrow> map_of d k)"
proof (induction e arbitrary: d)
  case Nil
  then show ?case by simp
next
  case (Cons p e)
  obtain k' v' where p: "p = (k', v')" by (cases p)
  from Cons.prems p have d: "distinct (odict_keys e)" and n: "k' \<notin> set (odict_keys e)"
    by (simp_all add: odict_keys_def)
  from n have m: "map_of e k' = None" by (simp add: odict_keys_def map_of_eq_None_iff)
  show ?case using Cons.IH [OF d, of "odict_setitem d k' v'"] p m
    by (auto simp: map_of_setitem split: option.splits)
qed

lemma keys_Cons: "odict_keys ((k, v) # d) = k # odict_keys d"
  by (simp add: odict_keys_def)

lemma keys_update:
  "distinct (odict_keys e) \<Longrightarrow>
   odict_keys (odict_update d e) =
     odict_keys d @ filter (\<lambda>k. k \<notin> set (odict_keys d)) (odict_keys e)"
proof (induction e arbitrary: d)
  case Nil
  then show ?case by (simp add: odict_keys_def)
next
  case (Cons p e)
  obtain k' v' where p: "p = (k', v')" by (cases p)
  from Cons.prems p have d: "distinct (odict_keys e)" and n: "k' \<notin> set (odict_keys e)"
    by (simp_all add: keys_Cons)
  have "odict_keys (odict_update d (p # e)) =
        odict_keys (odict_setitem d k' v') @
          filter (\<lambda>k. k \<notin> set (odict_keys (odict_setitem d k' v'))) (odict_keys e)"
    using Cons.IH [OF d, of "odict_setitem d k' v'"] p by simp
  also have "\<dots> = odict_keys d @ filter (\<lambda>k. k \<notin> set (odict_keys d)) (odict_keys (p # e))"
    using n p by (auto simp: keys_setitem keys_Cons intro!: filter_cong)
  finally show ?case .
qed

lemma distinct_setitem: "distinct (odict_keys d) \<Longrightarrow> distinct (odict_keys (odict_setitem d k v))"
  by (simp add: keys_setitem)

lemma distinct_update: "distinct (odict_keys d) \<Longrightarrow> distinct (odict_keys (odict_update d e))"
  by (induction e arbitrary: d) (auto simp: distinct_setitem)

lemma odict_get_update_q:
  "distinct (odict_keys e) \<Longrightarrow> odict_get (odict_update d e) k =
     (case map_of e k of Some v \<Rightarrow> v | None \<Rightarrow> odict_get d k)"
  by (simp add: odict_get_def map_of_update split: option.splits)

lemma map_of_absent: "k \<notin> set (odict_keys d) \<Longrightarrow> map_of d k = None"
  by (simp add: odict_keys_def map_of_eq_None_iff)

lemma map_of_setdefault:
  "map_of (odict_setdefault d k v) k' =
     (if k' = k \<and> k \<notin> set (odict_keys d) then Some v else map_of d k')"
proof (cases "k \<in> set (odict_keys d)")
  case True
  then show ?thesis by (simp add: odict_setdefault_def)
next
  case False
  then show ?thesis
    by (simp add: odict_setdefault_def map_add_def map_of_absent split: option.splits)
qed

lemma keys_setdefault:
  "odict_keys (odict_setdefault d k v) =
     (if k \<in> set (odict_keys d) then odict_keys d else odict_keys d @ [k])"
  by (simp add: odict_setdefault_def odict_keys_def)

lemma map_of_pop: "map_of (snd (odict_pop d k)) k' = (if k' = k then None else map_of d k')"
  by (induction d) (auto simp: odict_pop_def)

lemma keys_pop: "odict_keys (snd (odict_pop d k)) = filter (\<lambda>k'. k' \<noteq> k) (odict_keys d)"
  by (induction d) (auto simp: odict_pop_def odict_keys_def)

subsection \<open>The heap and the methods that use it\<close>

lemma runlimit_eq:
  "runlimit q = Inr (case map_of RUNLIMITS q of Some t \<Rightarrow> t | None \<Rightarrow> ''4:00'')"
  by (simp add: runlimit_def RUNLIMITS_def split: option.splits)

lemma mpiopts_eq:
  "mpiopts q = Inr (case map_of MPIOPTS q of Some t \<Rightarrow> t | None \<Rightarrow> '' -R \"span[ptile=4]\"'')"
  by (simp add: mpiopts_def MPIOPTS_def split: option.splits)

lemma Batch_init_eq:
  "Batch_init c kwargs w =
     (\<lparr>cls = c, username = os_user w, max_jobs = odict_get kwargs ''max_jobs'',
       default_opts = length (heap w),
       submit_cmd = [Lit ''submit '', Opts, Lit '' '', Command], jobs_cmd = ''jobs''\<rparr>,
      w\<lparr>heap := heap w @ [odict_update (at w (defaults_of c)) (snd (odict_pop kwargs ''max_jobs''))]\<rparr>)"
  by (simp add: Batch_init_def odict_pop_def alloc_def store_def at_def Let_def)

lemma Slurm_parse_options_eq:
  "valid self w \<Longrightarrow>
   Slurm_parse_options self opts w =
     (Inr (join_options ''--'' (odict_update (at w (default_opts self)) opts)),
      w\<lparr>heap := heap w @ [odict_update (at w (default_opts self)) opts]\<rparr>)"
  by (simp add: Slurm_parse_options_def valid_def alloc_def store_def at_def Let_def nth_append)

lemma LSF_parse_options_plain:
  assumes "valid self w" and "merged = odict_update (at w (default_opts self)) opts"
    and "''n'' \<notin> set (odict_keys merged)" and "runlimit (odict_get merged ''q'') = Inr t"
  shows "LSF_parse_options self opts w =
     (Inr (join_options ''-'' (odict_setdefault merged ''W'' (VStr t))),
      w\<lparr>heap := heap w @ [odict_setdefault merged ''W'' (VStr t)]\<rparr>)"
  using assms
  by (simp add: LSF_parse_options_def valid_def alloc_def store_def at_def Let_def nth_append)

lemma LSF_parse_options_mpi:
  assumes "valid self w" and "merged = odict_update (at w (default_opts self)) opts"
    and "''n'' \<in> set (odict_keys merged)" and "map_of merged ''R'' = Some (VStr r)"
    and "mpiopts (odict_get merged ''q'') = Inr m"
    and "runlimit (odict_get merged ''q'') = Inr t"
  shows "LSF_parse_options self opts w =
     (Inr (join_options ''-'' (odict_setdefault (odict_setitem merged ''R'' (VStr (r @ m))) ''W'' (VStr t))),
      w\<lparr>heap := heap w @ [odict_setdefault (odict_setitem merged ''R'' (VStr (r @ m))) ''W'' (VStr t)]\<rparr>)"
proof -
  have q: "odict_get (odict_setitem merged ''R'' (VStr (r @ m))) ''q'' = odict_get merged ''q''"
    by (simp add: odict_get_def map_of_setitem)
  show ?thesis using assms q
    by (simp add: LSF_parse_options_def add_mpiopts_def valid_def alloc_def store_def at_def
        Let_def nth_append)
qed

lemma LSF_parse_options_error:
  assumes "valid self w" and "merged = odict_update (at w (default_opts self)) opts"
    and "''n'' \<in> set (odict_keys merged)" and "map_of merged ''R'' = Some v"
    and "\<forall>r. v \<noteq> VStr r"
  shows "LSF_parse_options self opts w =
     (Inl (UnsupportedOperands ''+=''), w\<lparr>heap := heap w @ [merged]\<rparr>)"
  using assms
  by (cases v)
     (simp_all add: LSF_parse_options_def add_mpiopts_def mpiopts_eq valid_def alloc_def
        store_def at_def Let_def nth_append)

subsection \<open>Throttling\<close>

lemma njobs_Local: "cls self = Local \<Longrightarrow> njobs self sh w = (Inr 0, w)"
  by (simp add: njobs_def Local_njobs_def)

lemma njobs_listing:
  "cls self \<noteq> Local \<Longrightarrow>
   njobs self sh w =
     (if sh (jobs_cmd self) (popens w) \<noteq> [] then Inl bytes_split_error else Inr 0,
      w\<lparr>popens := Suc (popens w)\<rparr>)"
  by (simp add: njobs_def Batch_njobs_def jobs_def)

lemma throttle_None: "max_jobs self = VNone \<Longrightarrow> throttle self sh VNone sleep w = Some (Inr (), w)"
  by (simp add: throttle_def)

lemma throttle_ceiling:
  "(if mj = VNone then max_jobs self else mj) = VInt c \<Longrightarrow>
   throttle self sh mj sleep w = throttle_loop self sh c sleep w"
  by (simp add: throttle_def Let_def)

lemma throttle_loop_raises:
  "cls self \<noteq> Local \<Longrightarrow> sh (jobs_cmd self) (popens w) \<noteq> [] \<Longrightarrow>
   throttle_loop self sh c sleep w = Some (Inl bytes_split_error, w\<lparr>popens := Suc (popens w)\<rparr>)"
  by (subst throttle_loop.simps) (simp add: njobs_listing)

lemma submit_throttle:
  "batch self command jobname logfile opts w = (Inr cmd, w1) \<Longrightarrow>
   submit self sh command jobname logfile opts w =
     (case throttle self sh VNone 60 w1 of
        None \<Rightarrow> None
      | Some (Inl e, w2) \<Rightarrow> Some (Inl e, w2)
      | Some (Inr u, w2) \<Rightarrow> Some (Inr cmd, call cmd w2))"
  by (simp add: submit_def)

lemmas heap_ops = alloc_def store_def at_def log_def

lemma ex_init: "LSF_init [(''max_jobs'', VInt 2)] (initial_world ''me'') = (example_lsf, example_world)"
  by (simp add: LSF_init_def Batch_init_eq example_lsf_def example_world_def initial_world_def
      odict_pop_def odict_get_def heap_ops class_dicts_def)

lemma ex_batch: "batch example_lsf ''run'' VNone VNone [] example_world =
   (Inr example_cmd, example_world')"
  by (simp add: example_cmd_def example_world'_def batch_def remap_options_def parse_options_def example_lsf_def example_world_def
      LSF_parse_options_def initial_world_def class_dicts_def heap_ops Let_def odict_keys_def
      LSF_defaults_def runlimit_eq RUNLIMITS_def odict_get_def odict_setdefault_def join_options_def
      str_of_int_def digit_def odict_pop_def)

subsection \<open>Construction and the options of LSF\<close>

lemma map_of_update_absent:
  "k \<notin> set (odict_keys e) \<Longrightarrow> map_of (odict_update d e) k = map_of d k"
  by (induction e arbitrary: d) (auto simp: keys_Cons map_of_setitem odict_keys_def)

lemma pristine_cells:
  "pristine w \<Longrightarrow> 3 \<le> length (heap w) \<and> at w 0 = Batch_defaults \<and> at w 1 = LSF_defaults
     \<and> at w (Suc 0) = LSF_defaults \<and> at w 2 = Slurm_defaults"
proof -
  assume p: "pristine w"
  then have l: "length (take 3 (heap w)) = 3" by (simp add: pristine_def class_dicts_def)
  then have 3: "3 \<le> length (heap w)" by simp
  have "\<And>i. i < 3 \<Longrightarrow> heap w ! i = class_dicts ! i"
    using p by (metis nth_take pristine_def)
  then have "heap w ! 0 = class_dicts ! 0" "heap w ! 1 = class_dicts ! 1" "heap w ! 2 = class_dicts ! 2"
    by simp_all
  with 3 show ?thesis by (simp add: at_def class_dicts_def)
qed

lemma pristine_at: "pristine w \<Longrightarrow> at w (defaults_of c) =
   (case c of LSF \<Rightarrow> LSF_defaults | Slurm \<Rightarrow> Slurm_defaults | Local \<Rightarrow> Batch_defaults | Condor \<Rightarrow> Batch_defaults)"
  by (cases c) (simp_all add: pristine_cells)

lemma LSF_init_eq:
  "LSF_init kwargs w =
     (\<lparr>cls = LSF, username = os_user w, max_jobs = odict_get kwargs ''max_jobs'',
       default_opts = length (heap w),
       submit_cmd = [Lit ''bsub '', Opts, Lit '' '', Command],
       jobs_cmd = ''bjobs -u '' @ os_user w\<rparr>,
      w\<lparr>heap := heap w @ [odict_update (at w 1) (snd (odict_pop kwargs ''max_jobs''))]\<rparr>)"
  by (simp add: LSF_init_def Batch_init_eq)

lemma Slurm_init_eq:
  "Slurm_init kwargs w =
     (\<lparr>cls = Slurm, username = os_user w, max_jobs = odict_get kwargs ''max_jobs'',
       default_opts = length (heap w),
       submit_cmd = [Lit ''sbatch '', Opts, Lit '' '', Command],
       jobs_cmd = ''squeue -u '' @ os_user w\<rparr>,
      w\<lparr>heap := heap w @ [odict_update (at w 2) (snd (odict_pop kwargs ''max_jobs''))],
        logged := logged w @ [(Warning, ''Slurm cluster is untested'')]\<rparr>)"
  by (simp add: Slurm_init_def Batch_init_eq log_def)

lemma Local_init_eq:
  "Local_init kwargs w =
     (\<lparr>cls = Local, username = os_user w, max_jobs = odict_get kwargs ''max_jobs'',
       default_opts = length (heap w),
       submit_cmd = [Command, Lit '' '', Opts],
       jobs_cmd = ''echo 0''\<rparr>,
      w\<lparr>heap := heap w @ [odict_update (at w 0) (snd (odict_pop kwargs ''max_jobs''))]\<rparr>)"
  by (simp add: Local_init_def Batch_init_eq)

lemma Condor_init_eq:
  "Condor_init kwargs w =
     (\<lparr>cls = Condor, username = os_user w, max_jobs = odict_get kwargs ''max_jobs'',
       default_opts = length (heap w),
       submit_cmd = [Lit ''csub '', Opts, Lit '' '', Command],
       jobs_cmd = ''condor_q -u '' @ os_user w\<rparr>,
      w\<lparr>heap := heap w @ [odict_update (at w 0) (snd (odict_pop kwargs ''max_jobs''))],
        logged := logged w @ [(Warning, ''Condor cluster is untested'')]\<rparr>)"
  by (simp add: Condor_init_def Batch_init_eq log_def)

lemma LSF_parse_options_missing:
  assumes "valid self w" and "merged = odict_update (at w (default_opts self)) opts"
    and "''n'' \<in> set (odict_keys merged)" and "map_of merged ''R'' = None"
  shows "LSF_parse_options self opts w = (Inl (KeyError ''R''), w\<lparr>heap := heap w @ [merged]\<rparr>)"
  using assms
  by (simp add: LSF_parse_options_def add_mpiopts_def valid_def alloc_def store_def at_def
        Let_def nth_append)

lemma runlimit_total: "\<exists>t. runlimit q = Inr t"
  by (simp add: runlimit_eq)

lemma mpiopts_total: "\<exists>m. mpiopts q = Inr m"
  by (simp add: mpiopts_eq)

lemma LSF_parse_options_returns:
  assumes v: "valid self w" and m: "merged = odict_update (at w (default_opts self)) opts"
    and ok: "''n'' \<notin> set (odict_keys merged) \<or> (\<exists>r. map_of merged ''R'' = Some (VStr r))"
  shows "\<exists>s w'. LSF_parse_options self opts w = (Inr s, w')"
proof -
  obtain t where t: "runlimit (odict_get merged ''q'') = Inr t" using runlimit_total by blast
  obtain mp where mp: "mpiopts (odict_get merged ''q'') = Inr mp" using mpiopts_total by blast
  show ?thesis
  proof (cases "''n'' \<in> set (odict_keys merged)")
    case False
    from LSF_parse_options_plain [OF v m False t] show ?thesis by simp
  next
    case True
    with ok obtain r where R: "map_of merged ''R'' = Some (VStr r)" by blast
    from LSF_parse_options_mpi [OF v m True R mp t] show ?thesis by simp
  qed
qed

lemma map_of_present: "map_of d k = Some v \<Longrightarrow> k \<in> set (odict_keys d)"
  by (auto simp: odict_keys_def dest: map_of_SomeD intro: rev_image_eqI)

lemma keys_base:
  "map_of merged ''R'' = Some v \<Longrightarrow> odict_keys (odict_setitem merged ''R'' x) = odict_keys merged"
  by (simp add: keys_setitem map_of_present)

lemma LSF_final:
  assumes v: "valid self w" and m: "merged = odict_update (at w (default_opts self)) opts"
    and ok: "''n'' \<notin> set (odict_keys merged) \<or> (\<exists>r. map_of merged ''R'' = Some (VStr r))"
    and t: "runlimit (odict_get merged ''q'') = Inr t"
    and mp: "mpiopts (odict_get merged ''q'') = Inr mp"
    and f: "final = odict_setdefault
              (if ''n'' \<in> set (odict_keys merged)
               then odict_setitem merged ''R'' (VStr (py_str (odict_get merged ''R'') @ mp))
               else merged) ''W'' (VStr t)"
  shows "LSF_parse_options self opts w =
             (Inr (join_options ''-'' final), w\<lparr>heap := heap w @ [final]\<rparr>)"
    and "odict_keys final =
           (if ''W'' \<in> set (odict_keys merged) then odict_keys merged else odict_keys merged @ [''W''])"
    and "k \<noteq> ''R'' \<Longrightarrow> k \<noteq> ''W'' \<Longrightarrow> map_of final k = map_of merged k"
    and "map_of final ''W'' =
           (if ''W'' \<in> set (odict_keys merged) then map_of merged ''W'' else Some (VStr t))"
    and "map_of final ''R'' =
           (if ''n'' \<in> set (odict_keys merged)
            then map_option (\<lambda>r. VStr (py_str r @ mp)) (map_of merged ''R'')
            else map_of merged ''R'')"
proof -
  show "LSF_parse_options self opts w =
             (Inr (join_options ''-'' final), w\<lparr>heap := heap w @ [final]\<rparr>)"
  proof (cases "''n'' \<in> set (odict_keys merged)")
    case False
    with f have "final = odict_setdefault merged ''W'' (VStr t)" by simp
    with LSF_parse_options_plain [OF v m False t] show ?thesis by simp
  next
    case True
    with ok obtain r where R: "map_of merged ''R'' = Some (VStr r)" by blast
    then have "py_str (odict_get merged ''R'') = r" by (simp add: odict_get_def)
    with f True have "final = odict_setdefault (odict_setitem merged ''R'' (VStr (r @ mp))) ''W'' (VStr t)"
      by simp
    with LSF_parse_options_mpi [OF v m True R mp t] show ?thesis by simp
  qed
  have kb: "odict_keys (if ''n'' \<in> set (odict_keys merged)
               then odict_setitem merged ''R'' (VStr (py_str (odict_get merged ''R'') @ mp))
               else merged) = odict_keys merged"
    using ok by (auto simp: keys_base)
  show "odict_keys final =
           (if ''W'' \<in> set (odict_keys merged) then odict_keys merged else odict_keys merged @ [''W''])"
    unfolding f by (simp only: keys_setdefault kb)
  show "map_of final ''W'' =
           (if ''W'' \<in> set (odict_keys merged) then map_of merged ''W'' else Some (VStr t))"
    unfolding f by (simp only: map_of_setdefault kb) (simp add: map_of_setitem)
  show "map_of final ''R'' =
           (if ''n'' \<in> set (odict_keys merged)
            then map_option (\<lambda>r. VStr (py_str r @ mp)) (map_of merged ''R'')
            else map_of merged ''R'')"
  proof (cases "''n'' \<in> set (odict_keys merged)")
    case False
    then show ?thesis unfolding f by (simp add: map_of_setdefault)
  next
    case True
    with ok obtain r where R: "map_of merged ''R'' = Some (VStr r)" by blast
    with True show ?thesis unfolding f
      by (simp add: map_of_setdefault map_of_setitem odict_get_def)
  qed
  show "map_of final k = map_of merged k" if "k \<noteq> ''R''" and "k \<noteq> ''W''"
    using that unfolding f by (simp add: map_of_setdefault map_of_setitem)
qed

lemma LSF_init_cell:
  assumes "pristine w0" and "LSF_init kwargs w0 = (self, w)"
  shows "valid self w \<and> cls self = LSF
     \<and> at w (default_opts self) = odict_update LSF_defaults (snd (odict_pop kwargs ''max_jobs''))"
  using assms pristine_cells [OF assms(1)]
  by (auto simp: LSF_init_eq valid_def at_def)

lemma Slurm_init_cell:
  assumes "pristine w0" and "Slurm_init kwargs w0 = (self, w)"
  shows "valid self w \<and> cls self = Slurm
     \<and> at w (default_opts self) = odict_update Slurm_defaults (snd (odict_pop kwargs ''max_jobs''))"
  using assms pristine_cells [OF assms(1)]
  by (auto simp: Slurm_init_eq valid_def at_def)

lemma get_absent: "k \<notin> set (odict_keys d) \<Longrightarrow> odict_get d k = VNone"
  by (simp add: odict_get_def map_of_absent)

lemma runlimit_unknown: "q \<notin> fst ` set RUNLIMITS \<Longrightarrow> runlimit q = Inr ''4:00''"
proof -
  assume "q \<notin> fst ` set RUNLIMITS"
  then have "map_of RUNLIMITS q = None" by (simp add: map_of_eq_None_iff)
  then show ?thesis by (simp add: runlimit_eq)
qed

lemma mpiopts_unknown: "q \<notin> fst ` set MPIOPTS \<Longrightarrow> mpiopts q = Inr '' -R \"span[ptile=4]\"''"
proof -
  assume "q \<notin> fst ` set MPIOPTS"
  then have "map_of MPIOPTS q = None" by (simp add: map_of_eq_None_iff)
  then show ?thesis by (simp add: mpiopts_eq)
qed

lemma ex_valid: "valid example_lsf example_world"
  by (simp add: valid_def example_lsf_def example_world_def class_dicts_def)

lemma ex_cell: "at example_world (default_opts example_lsf) = LSF_defaults"
  by (simp add: at_def example_lsf_def example_world_def class_dicts_def)

lemma pristine_initial: "pristine (initial_world user)"
  by (simp add: pristine_def initial_world_def class_dicts_def)

lemma layers_map_of:
  assumes "distinct (odict_keys kw)" and "distinct (odict_keys opts)"
  shows "map_of (odict_update (odict_update d0 kw) opts) k =
     (case map_of opts k of
        Some v \<Rightarrow> Some v
      | None \<Rightarrow> (case map_of kw k of Some v \<Rightarrow> Some v | None \<Rightarrow> map_of d0 k))"
  using assms by (simp add: map_of_update split: option.splits)

lemma layers_keys:
  assumes "distinct (odict_keys kw)" and "distinct (odict_keys opts)"
  shows "odict_keys (odict_update (odict_update d0 kw) opts) =
     odict_keys d0 @ filter (\<lambda>k. k \<notin> set (odict_keys d0)) (odict_keys kw)
       @ filter (\<lambda>k. k \<notin> set (odict_keys d0) \<and> k \<notin> set (odict_keys kw)) (odict_keys opts)"
proof -
  have "filter (\<lambda>k. k \<notin> set (odict_keys (odict_update d0 kw))) (odict_keys opts)
      = filter (\<lambda>k. k \<notin> set (odict_keys d0) \<and> k \<notin> set (odict_keys kw)) (odict_keys opts)"
    using assms(1) by (intro filter_cong) (auto simp: keys_update)
  then show ?thesis using assms by (simp add: keys_update)
qed

lemma distinct_pop: "distinct (odict_keys d) \<Longrightarrow> distinct (odict_keys (snd (odict_pop d k)))"
  by (simp add: keys_pop)

subsection \<open>The factory and the local backend\<close>

lemma factory_eq:
  "factory queue kwargs w =
     (let name = lower (case queue of None \<Rightarrow> ''local'' | Some q \<Rightarrow> q);
          kwargs = (if name \<in> set (concat (map snd QUEUES))
                    then odict_setdefault kwargs ''q'' (VStr name) else kwargs)
      in if name \<in> set (family ''local'')
         then (Inr (fst (Local_init kwargs w)), snd (Local_init kwargs w))
         else if name \<in> set (family ''lsf'')
         then (Inr (fst (LSF_init kwargs w)), snd (LSF_init kwargs w))
         else if name \<in> set (family ''slurm'')
         then (Inr (fst (Slurm_init kwargs w)), snd (Slurm_init kwargs w))
         else if name \<in> set (family ''condor'')
         then (Inl (Exception ''Condor cluster not implemented''), snd (Condor_init kwargs w))
         else (Inl (TypeError (''Unexpected queue name: '' @ name)), w))"
  by (simp add: factory_def family_def Let_def split_beta)

lemma init_cls:
  "cls (fst (Local_init kwargs w)) = Local" "cls (fst (LSF_init kwargs w)) = LSF"
  "cls (fst (Slurm_init kwargs w)) = Slurm"
  by (simp_all add: Local_init_eq LSF_init_eq Slurm_init_eq)

lemmas table_eval = lower_def lower_char_def family_def names_of_def CLUSTERS_def QUEUES_def

lemma odict_update_append: "odict_update d (e @ f) = odict_update (odict_update d e) f"
  by (induction e arbitrary: d) auto

lemma map_of_update_last: "map_of (odict_update d (e @ [(k, v)])) k = Some v"
  by (simp add: odict_update_append map_of_setitem)

lemma pop_setdefault_q:
  "''q'' \<notin> set (odict_keys kwargs) \<Longrightarrow>
   snd (odict_pop (odict_setdefault kwargs ''q'' v) ''max_jobs'')
     = snd (odict_pop kwargs ''max_jobs'') @ [(''q'', v)]"
  by (simp add: odict_setdefault_def odict_pop_def)

lemma init_cell:
  "valid (fst (Local_init kwargs w)) (snd (Local_init kwargs w))"
  "at (snd (Local_init kwargs w)) (default_opts (fst (Local_init kwargs w)))
     = odict_update (at w 0) (snd (odict_pop kwargs ''max_jobs''))"
  "valid (fst (LSF_init kwargs w)) (snd (LSF_init kwargs w))"
  "at (snd (LSF_init kwargs w)) (default_opts (fst (LSF_init kwargs w)))
     = odict_update (at w 1) (snd (odict_pop kwargs ''max_jobs''))"
  "valid (fst (Slurm_init kwargs w)) (snd (Slurm_init kwargs w))"
  "at (snd (Slurm_init kwargs w)) (default_opts (fst (Slurm_init kwargs w)))
     = odict_update (at w 2) (snd (odict_pop kwargs ''max_jobs''))"
  by (simp_all add: Local_init_eq LSF_init_eq Slurm_init_eq valid_def at_def)

lemma factory_sets_q:
  assumes n: "name = lower (case queue of None \<Rightarrow> ''local'' | Some q \<Rightarrow> q)"
    and u: "name \<in> set (concat (map snd QUEUES))"
    and q: "''q'' \<notin> set (odict_keys kwargs)"
    and f: "factory queue kwargs w = (Inr b, w')"
  shows "valid b w' \<and> map_of (at w' (default_opts b)) ''q'' = Some (VStr name)"
proof -
  let ?k = "odict_setdefault kwargs ''q'' (VStr name)"
  have k: "snd (odict_pop ?k ''max_jobs'') = snd (odict_pop kwargs ''max_jobs'') @ [(''q'', VStr name)]"
    using q by (rule pop_setdefault_q)
  from f n u consider
      "b = fst (Local_init ?k w)" "w' = snd (Local_init ?k w)"
    | "b = fst (LSF_init ?k w)" "w' = snd (LSF_init ?k w)"
    | "b = fst (Slurm_init ?k w)" "w' = snd (Slurm_init ?k w)"
    by (auto simp: factory_eq Let_def split: if_splits)
  then show ?thesis
  proof cases
    case 1
    then show ?thesis by (simp only: init_cell k map_of_update_last simp_thms)
  next
    case 2
    then show ?thesis by (simp only: init_cell k map_of_update_last simp_thms)
  next
    case 3
    then show ?thesis by (simp only: init_cell k map_of_update_last simp_thms)
  qed
qed

lemma factory_local:
  "pristine w \<Longrightarrow> factory (Some ''local'') [] w =
     (Inr \<lparr>cls = Local, username = os_user w, max_jobs = VNone, default_opts = length (heap w),
           submit_cmd = [Command, Lit '' '', Opts], jobs_cmd = ''echo 0''\<rparr>,
      w\<lparr>heap := heap w @ [[(''q'', VStr ''local'')]]\<rparr>)"
  by (simp add: factory_eq Let_def table_eval Local_init_eq odict_setdefault_def odict_keys_def
      odict_pop_def odict_get_def pristine_cells Batch_defaults_def)

lemma factory_kipac:
  "pristine w \<Longrightarrow> factory (Some ''kipac-ibq'') [] w =
     (Inr \<lparr>cls = LSF, username = os_user w, max_jobs = VNone, default_opts = length (heap w),
           submit_cmd = [Lit ''bsub '', Opts, Lit '' '', Command],
           jobs_cmd = ''bjobs -u '' @ os_user w\<rparr>,
      w\<lparr>heap := heap w @ [LSF_defaults @ [(''q'', VStr ''kipac-ibq'')]]\<rparr>)"
  by (simp add: factory_eq Let_def table_eval LSF_init_eq odict_setdefault_def odict_keys_def
      odict_pop_def odict_get_def pristine_cells LSF_defaults_def)

lemma Local_parse_options_eq:
  "Local_parse_options self opts w =
     (Inr (if truthy (odict_get opts ''logfile'')
           then '' 2>&1 | tee '' @ py_str (odict_get opts ''logfile'') else []), w)"
  by (simp add: Local_parse_options_def)

lemma Local_batch:
  assumes "cls self = Local" and "submit_cmd self = [Command, Lit '' '', Opts]" and "lf \<noteq> []"
  shows "batch self command jobname (VStr lf) opts w =
           (Inr (command @ '' '' @ '' 2>&1 | tee '' @ lf), w)"
proof -
  have "odict_get (odict_setitem d ''logfile'' (VStr lf)) ''logfile'' = VStr lf" for d
    by (simp add: odict_get_def map_of_setitem)
  with assms show ?thesis
    by (simp add: batch_def remap_options_def parse_options_def Local_parse_options_def Let_def)
qed

subsection \<open>Which dictionaries an operation can change\<close>

lemma keeps_dicts_refl: "keeps_dicts w w"
  by (simp add: keeps_dicts_def)

lemma keeps_dicts_append: "heap w' = heap w @ ds \<Longrightarrow> keeps_dicts w w'"
  by (simp add: keeps_dicts_def)

lemma keeps_dicts_trans: "keeps_dicts w w' \<Longrightarrow> keeps_dicts w' w'' \<Longrightarrow> keeps_dicts w w''"
  by (auto simp: keeps_dicts_def)

lemma keeps_dicts_at:
  "keeps_dicts w w' \<Longrightarrow> a < length (heap w) \<Longrightarrow> a < length (heap w') \<and> at w' a = at w a"
  by (auto simp: keeps_dicts_def prefix_def at_def nth_append)

lemma keeps_dicts_pristine: "keeps_dicts w w' \<Longrightarrow> pristine w \<Longrightarrow> pristine w'"
proof -
  assume k: "keeps_dicts w w'" and p: "pristine w"
  from p have "3 \<le> length (heap w)" by (simp add: pristine_cells)
  with k have "take 3 (heap w') = take 3 (heap w)" by (auto simp: keeps_dicts_def prefix_def)
  with p show ?thesis by (simp add: pristine_def)
qed

lemma LSF_parse_options_keeps: "keeps_dicts w (snd (LSF_parse_options self opts w))"
  by (simp add: LSF_parse_options_def add_mpiopts_def runlimit_eq mpiopts_eq alloc_def store_def
      at_def Let_def keeps_dicts_def split: option.splits pyval.splits)

lemma Slurm_parse_options_keeps: "keeps_dicts w (snd (Slurm_parse_options self opts w))"
  by (simp add: Slurm_parse_options_def alloc_def store_def at_def Let_def keeps_dicts_def)

lemma parse_options_keeps: "keeps_dicts w (snd (parse_options self opts w))"
  by (cases "cls self")
     (simp_all add: parse_options_def Local_parse_options_eq keeps_dicts_refl
        LSF_parse_options_keeps Slurm_parse_options_keeps)

lemma LSF_parse_options_fst:
  "at w2 (default_opts self) = at w (default_opts self) \<Longrightarrow>
   fst (LSF_parse_options self opts w2) = fst (LSF_parse_options self opts w)"
  by (simp add: LSF_parse_options_def add_mpiopts_def runlimit_eq mpiopts_eq alloc_def store_def
      at_def Let_def split: option.splits pyval.splits)

lemma Slurm_parse_options_fst:
  "at w2 (default_opts self) = at w (default_opts self) \<Longrightarrow>
   fst (Slurm_parse_options self opts w2) = fst (Slurm_parse_options self opts w)"
  by (simp add: Slurm_parse_options_def alloc_def store_def at_def Let_def)

lemma parse_options_fst:
  assumes "at w2 (default_opts self) = at w (default_opts self)"
  shows "fst (parse_options self opts w2) = fst (parse_options self opts w)"
proof (cases "cls self")
  case Local
  then show ?thesis by (simp add: parse_options_def Local_parse_options_eq)
next
  case LSF
  with LSF_parse_options_fst [OF assms, of opts] show ?thesis by (simp add: parse_options_def)
next
  case Slurm
  with Slurm_parse_options_fst [OF assms, of opts] show ?thesis by (simp add: parse_options_def)
next
  case Condor
  then show ?thesis by (simp add: parse_options_def)
qed

lemma batch_split:
  "\<exists>opts'. batch self command jobname logfile opts w =
     (case fst (parse_options self opts' w) of
        Inl e \<Rightarrow> Inl e
      | Inr s \<Rightarrow> Inr (fill (submit_cmd self) s command),
      snd (parse_options self opts' w))
    \<and> opts' = remap_options self
         (if truthy logfile
          then odict_update
                 (if truthy jobname then odict_update opts [(''jobname'', jobname)] else opts)
                 [(''logfile'', logfile)]
          else (if truthy jobname then odict_update opts [(''jobname'', jobname)] else opts))"
proof -
  define opts' where "opts' = remap_options self
         (if truthy logfile
          then odict_update
                 (if truthy jobname then odict_update opts [(''jobname'', jobname)] else opts)
                 [(''logfile'', logfile)]
          else (if truthy jobname then odict_update opts [(''jobname'', jobname)] else opts))"
  obtain r w' where p: "parse_options self opts' w = (r, w')" by (cases "parse_options self opts' w")
  have "batch self command jobname logfile opts w =
      (case parse_options self opts' w of
         (Inl e, w) \<Rightarrow> (Inl e, w)
       | (Inr s, w) \<Rightarrow> (Inr (fill (submit_cmd self) s command), w))"
    unfolding batch_def Let_def opts'_def by (rule refl)
  also have "\<dots> = (case fst (parse_options self opts' w) of
        Inl e \<Rightarrow> Inl e
      | Inr s \<Rightarrow> Inr (fill (submit_cmd self) s command),
      snd (parse_options self opts' w))"
    unfolding p by (cases r) simp_all
  finally show ?thesis using opts'_def by blast
qed

lemma batch_keeps: "keeps_dicts w (snd (batch self command jobname logfile opts w))"
proof -
  from batch_split [of self command jobname logfile opts w] obtain opts' where
    "batch self command jobname logfile opts w =
     (case fst (parse_options self opts' w) of
        Inl e \<Rightarrow> Inl e
      | Inr s \<Rightarrow> Inr (fill (submit_cmd self) s command),
      snd (parse_options self opts' w))" by blast
  then show ?thesis by (simp add: parse_options_keeps)
qed

lemma batch_fst:
  assumes "at w2 (default_opts self) = at w (default_opts self)"
  shows "fst (batch self command jobname logfile opts w2)
       = fst (batch self command jobname logfile opts w)"
proof -
  from batch_split [of self command jobname logfile opts w] obtain o1 where
    1: "batch self command jobname logfile opts w =
     (case fst (parse_options self o1 w) of
        Inl e \<Rightarrow> Inl e
      | Inr s \<Rightarrow> Inr (fill (submit_cmd self) s command),
      snd (parse_options self o1 w))"
    and o1: "o1 = remap_options self
         (if truthy logfile
          then odict_update
                 (if truthy jobname then odict_update opts [(''jobname'', jobname)] else opts)
                 [(''logfile'', logfile)]
          else (if truthy jobname then odict_update opts [(''jobname'', jobname)] else opts))"
    by blast
  from batch_split [of self command jobname logfile opts w2] o1 have
    2: "batch self command jobname logfile opts w2 =
     (case fst (parse_options self o1 w2) of
        Inl e \<Rightarrow> Inl e
      | Inr s \<Rightarrow> Inr (fill (submit_cmd self) s command),
      snd (parse_options self o1 w2))"
    by simp
  from parse_options_fst [OF assms, of o1] show ?thesis unfolding 1 2 by simp
qed

lemma njobs_heap: "heap (snd (njobs self sh w)) = heap w"
  by (simp add: njobs_def Local_njobs_def Batch_njobs_def jobs_def)

lemma throttle_loop_heap:
  "throttle_loop self sh c sleep w = Some y \<Longrightarrow> heap (snd y) = heap w"
proof (induct rule: throttle_loop.raw_induct [rotated 1, consumes 1, case_names step])
  case (step loop self sh c sleep w y)
  obtain r w1 where n: "njobs self sh w = (r, w1)" by (cases "njobs self sh w")
  with njobs_heap [of self sh w] have h: "heap w1 = heap w" by simp
  show ?case
  proof (cases r)
    case (Inl e)
    with step(2) n h show ?thesis by auto
  next
    case (Inr k)
    show ?thesis
    proof (cases "k < c \<or> sleep < 0")
      case True
      with step(2) n h Inr show ?thesis by (auto simp: log_def Let_def split: if_splits)
    next
      case False
      let ?w = "(log Info (str_of_int k @ '' jobs already in queue, waiting...'') w1)
                  \<lparr>slept := slept (log Info (str_of_int k @ '' jobs already in queue, waiting...'') w1)
                            @ [sleep]\<rparr>"
      from False step(2) n Inr have "loop self sh c sleep ?w = Some y" by (simp add: Let_def)
      from step(1) [OF this] h show ?thesis by (simp add: log_def)
    qed
  qed
qed

lemma throttle_heap:
  assumes "throttle self sh mj sleep w = Some (r, w')"
  shows "heap w' = heap w"
proof (cases "if mj = VNone then max_jobs self else mj")
  case VNone
  with assms show ?thesis by (simp add: throttle_def Let_def)
next
  case (VInt c)
  with assms have "throttle_loop self sh c sleep w = Some (r, w')" by (simp add: throttle_ceiling)
  from throttle_loop_heap [OF this] show ?thesis by simp
next
  case (VStr s)
  obtain rn wn where n: "njobs self sh w = (rn, wn)" by (cases "njobs self sh w")
  with VStr assms have "w' = wn" by (cases rn) (simp_all add: throttle_def Let_def)
  with n njobs_heap [of self sh w] show ?thesis by simp
qed

lemma submit_keeps:
  assumes "submit self sh command jobname logfile opts w = Some (r, w')"
  shows "keeps_dicts w w'"
proof -
  obtain rb wb where b: "batch self command jobname logfile opts w = (rb, wb)"
    by (cases "batch self command jobname logfile opts w")
  from batch_keeps [of w self command jobname logfile opts] b have k: "keeps_dicts w wb" by simp
  show ?thesis
  proof (cases rb)
    case (Inl e)
    with assms b k show ?thesis by (simp add: submit_def)
  next
    case (Inr cmd)
    with b have s: "submit self sh command jobname logfile opts w =
     (case throttle self sh VNone 60 wb of
        None \<Rightarrow> None
      | Some (Inl e, w2) \<Rightarrow> Some (Inl e, w2)
      | Some (Inr u, w2) \<Rightarrow> Some (Inr cmd, call cmd w2))"
      by (simp add: submit_throttle)
    with assms obtain rt wt where t: "throttle self sh VNone 60 wb = Some (rt, wt)"
      by (cases "throttle self sh VNone 60 wb") auto
    from assms s t have "w' = wt \<or> w' = call cmd wt" by (cases rt) auto
    with throttle_heap [OF t] have "heap w' = heap wb" by (auto simp: call_def log_def)
    with k show ?thesis by (simp add: keeps_dicts_def)
  qed
qed

lemma init_keeps:
  "keeps_dicts w (snd (Local_init kwargs w))" "keeps_dicts w (snd (LSF_init kwargs w))"
  "keeps_dicts w (snd (Slurm_init kwargs w))" "keeps_dicts w (snd (Condor_init kwargs w))"
  "keeps_dicts w (snd (Batch_init c kwargs w))"
  by (simp_all add: Local_init_eq LSF_init_eq Slurm_init_eq Condor_init_eq Batch_init_eq
      keeps_dicts_def)

lemma factory_keeps: "keeps_dicts w (snd (factory queue kwargs w))"
  by (simp add: factory_eq Let_def init_keeps keeps_dicts_refl)

lemma ex_pristine: "pristine example_world"
  by (simp add: pristine_def example_world_def class_dicts_def)

lemma ex_throttle:
  "throttle example_lsf draining_queue VNone 60 example_world
     = Some (Inl bytes_split_error, example_world\<lparr>popens := Suc (popens example_world)\<rparr>)"
proof -
  have c: "cls example_lsf \<noteq> Local" and m: "max_jobs example_lsf = VInt 2"
    by (simp_all add: example_lsf_def)
  have "draining_queue (jobs_cmd example_lsf) (popens example_world) \<noteq> []"
    by (simp add: draining_queue_def listing_def)
  from throttle_loop_raises [where sh = draining_queue and w = example_world, OF c this] m
  show ?thesis by (simp add: throttle_ceiling)
qed

section \<open>The claims\<close>

text \<open>
  Claim C3: the generic \<^verbatim>\<open>njobs\<close> is to return \<open>N - 1\<close> for a listing of \<open>N\<close> lines. The
  code does not: for the listing of a header line and one job, as for every non-empty
  listing, it raises the \<^verbatim>\<open>TypeError\<close> of \<^verbatim>\<open>split\<close>, after running the listing. Only the
  empty output gives 0, and \<^verbatim>\<open>Local.njobs\<close> gives 0 without running a listing.
\<close>

theorem njobs_raises_on_listing:
  "njobs example_lsf (\<lambda>cmd i. listing [''JOBID'', ''1234'']) example_world
     = (Inl bytes_split_error, example_world\<lparr>popens := 1\<rparr>)
   \<and> njobs example_lsf (\<lambda>cmd i. []) example_world = (Inr 0, example_world\<lparr>popens := 1\<rparr>)
   \<and> njobs (example_lsf\<lparr>cls := Local\<rparr>) busy_queue example_world = (Inr 0, example_world)"
proof -
  have c: "cls example_lsf \<noteq> Local" by (simp add: example_lsf_def)
  have p: "popens example_world = 0" by (simp add: example_world_def initial_world_def)
  have "njobs example_lsf (\<lambda>cmd i. listing [''JOBID'', ''1234'']) example_world
     = (Inl bytes_split_error, example_world\<lparr>popens := 1\<rparr>)"
    by (simp add: njobs_listing [OF c] listing_def p)
  moreover have "njobs example_lsf (\<lambda>cmd i. []) example_world
     = (Inr 0, example_world\<lparr>popens := 1\<rparr>)"
    by (simp add: njobs_listing [OF c] p)
  moreover have "njobs (example_lsf\<lparr>cls := Local\<rparr>) busy_queue example_world
     = (Inr 0, example_world)"
    by (simp add: njobs_Local)
  ultimately show ?thesis by (intro conjI)
qed

text \<open>
  Claim C2: \<^verbatim>\<open>submit\<close> on a backend with the ceiling 2 is to wait while the queue lists
  three jobs. The code does not: on the backend that \<^verbatim>\<open>LSF(max_jobs=2)\<close> creates, with a
  queue that always lists three jobs under its header, the first \<^verbatim>\<open>njobs\<close> of
  \<^verbatim>\<open>throttle\<close> raises the \<^verbatim>\<open>TypeError\<close> of \<^verbatim>\<open>split\<close>, and \<^verbatim>\<open>submit\<close> ends with it after
  one listing: nothing is logged, no sleep is done, the command is not run.
\<close>

theorem submit_raises_on_busy_queue:
  "LSF_init [(''max_jobs'', VInt 2)] (initial_world ''me'') = (example_lsf, example_world)
   \<and> busy_queue (jobs_cmd example_lsf) 0 = listing [''JOBID'', ''101'', ''102'', ''103'']
   \<and> throttle example_lsf busy_queue VNone 60 example_world
       = Some (Inl bytes_split_error, example_world\<lparr>popens := 1\<rparr>)
   \<and> submit example_lsf busy_queue ''run'' VNone VNone [] example_world
       = Some (Inl bytes_split_error, example_world'\<lparr>popens := 1\<rparr>)
   \<and> logged (example_world'\<lparr>popens := 1\<rparr>) = []
   \<and> slept (example_world'\<lparr>popens := 1\<rparr>) = []
   \<and> called (example_world'\<lparr>popens := 1\<rparr>) = []"
proof -
  have c: "cls example_lsf \<noteq> Local" and m: "max_jobs example_lsf = VInt 2"
    by (simp_all add: example_lsf_def)
  have p: "popens example_world = 0" and p': "popens example_world' = 0"
    by (simp_all add: example_world'_def example_world_def initial_world_def)
  have b: "busy_queue (jobs_cmd example_lsf) i \<noteq> []" for i
    by (simp add: busy_queue_def listing_def)
  have 1: "throttle example_lsf busy_queue VNone 60 example_world
       = Some (Inl bytes_split_error, example_world\<lparr>popens := 1\<rparr>)"
    using throttle_loop_raises [where sh = busy_queue and w = example_world, OF c b] m p
    by (simp add: throttle_ceiling)
  have "throttle example_lsf busy_queue VNone 60 example_world'
       = Some (Inl bytes_split_error, example_world'\<lparr>popens := 1\<rparr>)"
    using throttle_loop_raises [where sh = busy_queue and w = example_world', OF c b] m p'
    by (simp add: throttle_ceiling)
  then have 2: "submit example_lsf busy_queue ''run'' VNone VNone [] example_world
       = Some (Inl bytes_split_error, example_world'\<lparr>popens := 1\<rparr>)"
    by (simp add: submit_throttle [OF ex_batch])
  have 3: "logged (example_world'\<lparr>popens := 1\<rparr>) = []"
    "slept (example_world'\<lparr>popens := 1\<rparr>) = []"
    "called (example_world'\<lparr>popens := 1\<rparr>) = []"
    by (simp_all add: example_world'_def example_world_def initial_world_def)
  have 4: "busy_queue (jobs_cmd example_lsf) 0 = listing [''JOBID'', ''101'', ''102'', ''103'']"
    by (simp add: busy_queue_def)
  from ex_init 4 1 2 3 show ?thesis by (intro conjI)
qed

text \<open>
  Claim C4. Let \<open>merged\<close> be the instance defaults updated with the options of the call,
  and let its \<^verbatim>\<open>R\<close> be a string \<open>r\<close>. Then \<^verbatim>\<open>LSF.parse_options\<close> returns the serialisation
  of a dictionary whose \<^verbatim>\<open>R\<close> is \<open>r\<close> followed by the MPI placement of the merged \<^verbatim>\<open>q\<close>
  when \<^verbatim>\<open>n\<close> is a key of \<open>merged\<close>, and \<open>r\<close> itself otherwise. The placement is the
  default entry when \<^verbatim>\<open>q\<close> is absent or is no key of \<^verbatim>\<open>MPIOPTS\<close>, and the entry of
  \<^verbatim>\<open>bulletmpi\<close> for that queue. On an instance built without \<^verbatim>\<open>R\<close> and called without
  \<^verbatim>\<open>R\<close>, \<open>r\<close> is the class default.
\<close>

theorem LSF_resource_selector:
  "(valid self w \<and> merged = odict_update (at w (default_opts self)) opts
      \<and> map_of merged ''R'' = Some (VStr r) \<longrightarrow>
      (\<exists>final m. LSF_parse_options self opts w =
           (Inr (join_options ''-'' final), w\<lparr>heap := heap w @ [final]\<rparr>)
         \<and> mpiopts (odict_get merged ''q'') = Inr m
         \<and> map_of final ''R'' =
             Some (VStr (if ''n'' \<in> set (odict_keys merged) then r @ m else r))))
   \<and> (''q'' \<notin> set (odict_keys merged) \<longrightarrow> odict_get merged ''q'' = VNone)
   \<and> mpiopts VNone = Inr '' -R \"span[ptile=4]\"''
   \<and> (q \<notin> fst ` set MPIOPTS \<longrightarrow> mpiopts q = Inr '' -R \"span[ptile=4]\"'')
   \<and> mpiopts (VStr ''bulletmpi'') = Inr '' -R \"span[ptile=16]\"''
   \<and> (pristine w0 \<and> LSF_init kwargs w0 = (self0, w1)
        \<and> ''R'' \<notin> set (odict_keys kwargs) \<and> ''R'' \<notin> set (odict_keys opts) \<longrightarrow>
        valid self0 w1
        \<and> map_of (odict_update (at w1 (default_opts self0)) opts) ''R''
            = Some (VStr ''\"scratch > 1 && rhel60\"''))"
proof (intro conjI impI)
  assume a: "valid self w \<and> merged = odict_update (at w (default_opts self)) opts
      \<and> map_of merged ''R'' = Some (VStr r)"
  from a have v: "valid self w" by (rule conjunct1)
  from a have m: "merged = odict_update (at w (default_opts self)) opts"
    by (rule conjunct2 [THEN conjunct1])
  from a have R: "map_of merged ''R'' = Some (VStr r)" by (rule conjunct2 [THEN conjunct2])
  from R have ok: "''n'' \<notin> set (odict_keys merged) \<or> (\<exists>r. map_of merged ''R'' = Some (VStr r))"
    by (intro disjI2 exI)
  obtain t where t: "runlimit (odict_get merged ''q'') = Inr t" using runlimit_total by blast
  obtain mp where mp: "mpiopts (odict_get merged ''q'') = Inr mp" using mpiopts_total by blast
  define final where "final = odict_setdefault
              (if ''n'' \<in> set (odict_keys merged)
               then odict_setitem merged ''R'' (VStr (py_str (odict_get merged ''R'') @ mp))
               else merged) ''W'' (VStr t)"
  note F = LSF_final [OF v m ok t mp final_def]
  have "map_of final ''R'' = Some (VStr (if ''n'' \<in> set (odict_keys merged) then r @ mp else r))"
    using F(5) R by simp
  with F(1) mp
  have "LSF_parse_options self opts w =
           (Inr (join_options ''-'' final), w\<lparr>heap := heap w @ [final]\<rparr>)
         \<and> mpiopts (odict_get merged ''q'') = Inr mp
         \<and> map_of final ''R'' =
             Some (VStr (if ''n'' \<in> set (odict_keys merged) then r @ mp else r))"
    by (intro conjI)
  then show "\<exists>final m. LSF_parse_options self opts w =
           (Inr (join_options ''-'' final), w\<lparr>heap := heap w @ [final]\<rparr>)
         \<and> mpiopts (odict_get merged ''q'') = Inr m
         \<and> map_of final ''R'' =
             Some (VStr (if ''n'' \<in> set (odict_keys merged) then r @ m else r))"
    by (intro exI)
next
  assume "''q'' \<notin> set (odict_keys merged)"
  then show "odict_get merged ''q'' = VNone" by (rule get_absent)
next
  show "mpiopts VNone = Inr '' -R \"span[ptile=4]\"''" by (simp add: mpiopts_eq MPIOPTS_def)
next
  assume "q \<notin> fst ` set MPIOPTS"
  then show "mpiopts q = Inr '' -R \"span[ptile=4]\"''" by (rule mpiopts_unknown)
next
  show "mpiopts (VStr ''bulletmpi'') = Inr '' -R \"span[ptile=16]\"''"
    by (simp add: mpiopts_eq MPIOPTS_def)
next
  assume a: "pristine w0 \<and> LSF_init kwargs w0 = (self0, w1)
        \<and> ''R'' \<notin> set (odict_keys kwargs) \<and> ''R'' \<notin> set (odict_keys opts)"
  then show "valid self0 w1" using LSF_init_cell by blast
next
  assume a: "pristine w0 \<and> LSF_init kwargs w0 = (self0, w1)
        \<and> ''R'' \<notin> set (odict_keys kwargs) \<and> ''R'' \<notin> set (odict_keys opts)"
  then have c: "at w1 (default_opts self0) = odict_update LSF_defaults (snd (odict_pop kwargs ''max_jobs''))"
    using LSF_init_cell by blast
  from a have "''R'' \<notin> set (odict_keys (snd (odict_pop kwargs ''max_jobs'')))"
    by (simp add: keys_pop)
  with a c show "map_of (odict_update (at w1 (default_opts self0)) opts) ''R''
            = Some (VStr ''\"scratch > 1 && rhel60\"'')"
    by (simp add: map_of_update_absent LSF_defaults_def)
qed

theorem LSF_resource_selector_witness:
  "valid example_lsf example_world
   \<and> map_of (odict_update (at example_world (default_opts example_lsf))
                [(''n'', VInt 4), (''q'', VStr ''bulletmpi'')]) ''R''
       = Some (VStr ''\"scratch > 1 && rhel60\"'')
   \<and> ''n'' \<in> set (odict_keys (odict_update (at example_world (default_opts example_lsf))
                [(''n'', VInt 4), (''q'', VStr ''bulletmpi'')]))
   \<and> (\<exists>final. LSF_parse_options example_lsf [(''n'', VInt 4), (''q'', VStr ''bulletmpi'')] example_world
          = (Inr (join_options ''-'' final), example_world\<lparr>heap := heap example_world @ [final]\<rparr>)
        \<and> map_of final ''R'' = Some (VStr ''\"scratch > 1 && rhel60\" -R \"span[ptile=16]\"''))
   \<and> ''q'' \<notin> set (odict_keys (odict_update (at example_world (default_opts example_lsf)) [(''n'', VInt 4)]))
   \<and> (\<exists>final. LSF_parse_options example_lsf [(''n'', VInt 4)] example_world
          = (Inr (join_options ''-'' final), example_world\<lparr>heap := heap example_world @ [final]\<rparr>)
        \<and> map_of final ''R'' = Some (VStr ''\"scratch > 1 && rhel60\" -R \"span[ptile=4]\"''))
   \<and> VStr ''long'' \<notin> fst ` set MPIOPTS
   \<and> mpiopts (VStr ''long'') = Inr '' -R \"span[ptile=4]\"''
   \<and> pristine (initial_world ''me'')
   \<and> LSF_init [(''max_jobs'', VInt 2)] (initial_world ''me'') = (example_lsf, example_world)"
proof -
  note T = LSF_resource_selector
  let ?d = "at example_world (default_opts example_lsf)"
  let ?m1 = "odict_update ?d [(''n'', VInt 4), (''q'', VStr ''bulletmpi'')]"
  let ?m2 = "odict_update ?d [(''n'', VInt 4)]"
  have R1: "map_of ?m1 ''R'' = Some (VStr ''\"scratch > 1 && rhel60\"'')"
    by (simp add: ex_cell LSF_defaults_def)
  have R2: "map_of ?m2 ''R'' = Some (VStr ''\"scratch > 1 && rhel60\"'')"
    using T [where ?w0.0 = "initial_world ''me''" and kwargs = "[(''max_jobs'', VInt 2)]"
        and ?self0.0 = example_lsf and ?w1.0 = example_world and opts = "[(''n'', VInt 4)]"]
      pristine_initial [of "''me''"] ex_init
    by (simp add: odict_keys_def)
  have n1: "''n'' \<in> set (odict_keys ?m1)" by (simp add: ex_cell LSF_defaults_def odict_keys_def)
  have n2: "''n'' \<in> set (odict_keys ?m2)" by (simp add: ex_cell LSF_defaults_def odict_keys_def)
  have q1: "odict_get ?m1 ''q'' = VStr ''bulletmpi''"
    by (simp add: ex_cell LSF_defaults_def odict_get_def)
  have q2: "''q'' \<notin> set (odict_keys ?m2)" by (simp add: ex_cell LSF_defaults_def odict_keys_def)
  have u: "VStr ''long'' \<notin> fst ` set MPIOPTS" by (simp add: MPIOPTS_def)
  have a: "\<exists>final. LSF_parse_options example_lsf [(''n'', VInt 4), (''q'', VStr ''bulletmpi'')] example_world
          = (Inr (join_options ''-'' final), example_world\<lparr>heap := heap example_world @ [final]\<rparr>)
        \<and> map_of final ''R'' = Some (VStr ''\"scratch > 1 && rhel60\" -R \"span[ptile=16]\"'')"
  proof -
    from T [where self = example_lsf and w = example_world and merged = ?m1
        and opts = "[(''n'', VInt 4), (''q'', VStr ''bulletmpi'')]"
        and r = "''\"scratch > 1 && rhel60\"''"] ex_valid R1
    obtain final m where
      1: "LSF_parse_options example_lsf [(''n'', VInt 4), (''q'', VStr ''bulletmpi'')] example_world
          = (Inr (join_options ''-'' final), example_world\<lparr>heap := heap example_world @ [final]\<rparr>)"
      and 2: "mpiopts (odict_get ?m1 ''q'') = Inr m"
      and 3: "map_of final ''R'' = Some (VStr (if ''n'' \<in> set (odict_keys ?m1)
                 then ''\"scratch > 1 && rhel60\"'' @ m else ''\"scratch > 1 && rhel60\"''))"
      by blast
    from 2 q1 T [THEN conjunct2, THEN conjunct2, THEN conjunct2, THEN conjunct2, THEN conjunct1]
    have "m = '' -R \"span[ptile=16]\"''" by simp
    with 1 3 n1 show ?thesis by (intro exI [of _ final]) simp
  qed
  have b: "\<exists>final. LSF_parse_options example_lsf [(''n'', VInt 4)] example_world
          = (Inr (join_options ''-'' final), example_world\<lparr>heap := heap example_world @ [final]\<rparr>)
        \<and> map_of final ''R'' = Some (VStr ''\"scratch > 1 && rhel60\" -R \"span[ptile=4]\"'')"
  proof -
    from T [where self = example_lsf and w = example_world and merged = ?m2
        and opts = "[(''n'', VInt 4)]" and r = "''\"scratch > 1 && rhel60\"''"] ex_valid R2
    obtain final m where
      1: "LSF_parse_options example_lsf [(''n'', VInt 4)] example_world
          = (Inr (join_options ''-'' final), example_world\<lparr>heap := heap example_world @ [final]\<rparr>)"
      and 2: "mpiopts (odict_get ?m2 ''q'') = Inr m"
      and 3: "map_of final ''R'' = Some (VStr (if ''n'' \<in> set (odict_keys ?m2)
                 then ''\"scratch > 1 && rhel60\"'' @ m else ''\"scratch > 1 && rhel60\"''))"
      by blast
    from T [where merged = ?m2, THEN conjunct2, THEN conjunct1] q2
    have "odict_get ?m2 ''q'' = VNone" by simp
    with 2 T [THEN conjunct2, THEN conjunct2, THEN conjunct1]
    have "m = '' -R \"span[ptile=4]\"''" by simp
    with 1 3 n2 show ?thesis by (intro exI [of _ final]) simp
  qed
  from T [where q = "VStr ''long''", THEN conjunct2, THEN conjunct2, THEN conjunct2, THEN conjunct1] u
  have c: "mpiopts (VStr ''long'') = Inr '' -R \"span[ptile=4]\"''" by simp
  show ?thesis using ex_valid R1 n1 a q2 b u c pristine_initial ex_init by (intro conjI)
qed

text \<open>
  Claim C5. When \<^verbatim>\<open>parse_options\<close> of \<^verbatim>\<open>LSF\<close> returns (that is, unless \<^verbatim>\<open>n\<close> is given and
  \<^verbatim>\<open>R\<close> is not a string): if \<^verbatim>\<open>W\<close> is no key of the merged options, \<^verbatim>\<open>W\<close> is appended
  with the run limit of the merged \<^verbatim>\<open>q\<close>; if it is a key, its value and the order of
  the keys stay as they are. The run limit of \<^verbatim>\<open>express\<close> is \<^verbatim>\<open>0:04\<close>; it is \<^verbatim>\<open>4:00\<close> for
  an absent \<^verbatim>\<open>q\<close> and for every value that is no key of \<^verbatim>\<open>RUNLIMITS\<close>.
\<close>

theorem LSF_wallclock_default:
  "(valid self w \<and> merged = odict_update (at w (default_opts self)) opts
      \<and> (''n'' \<notin> set (odict_keys merged) \<or> (\<exists>r. map_of merged ''R'' = Some (VStr r))) \<longrightarrow>
      (\<exists>final t. LSF_parse_options self opts w =
           (Inr (join_options ''-'' final), w\<lparr>heap := heap w @ [final]\<rparr>)
         \<and> runlimit (odict_get merged ''q'') = Inr t
         \<and> (''W'' \<notin> set (odict_keys merged) \<longrightarrow>
              map_of final ''W'' = Some (VStr t) \<and> odict_keys final = odict_keys merged @ [''W''])
         \<and> (''W'' \<in> set (odict_keys merged) \<longrightarrow>
              map_of final ''W'' = map_of merged ''W'' \<and> odict_keys final = odict_keys merged)))
   \<and> (''q'' \<notin> set (odict_keys merged) \<longrightarrow> odict_get merged ''q'' = VNone)
   \<and> runlimit (VStr ''express'') = Inr ''0:04''
   \<and> runlimit VNone = Inr ''4:00''
   \<and> (q \<notin> fst ` set RUNLIMITS \<longrightarrow> runlimit q = Inr ''4:00'')"
proof (intro conjI impI)
  assume a: "valid self w \<and> merged = odict_update (at w (default_opts self)) opts
      \<and> (''n'' \<notin> set (odict_keys merged) \<or> (\<exists>r. map_of merged ''R'' = Some (VStr r)))"
  from a have v: "valid self w" by (rule conjunct1)
  from a have m: "merged = odict_update (at w (default_opts self)) opts"
    by (rule conjunct2 [THEN conjunct1])
  from a have ok: "''n'' \<notin> set (odict_keys merged) \<or> (\<exists>r. map_of merged ''R'' = Some (VStr r))"
    by (rule conjunct2 [THEN conjunct2])
  obtain t where t: "runlimit (odict_get merged ''q'') = Inr t" using runlimit_total by blast
  obtain mp where mp: "mpiopts (odict_get merged ''q'') = Inr mp" using mpiopts_total by blast
  define final where "final = odict_setdefault
              (if ''n'' \<in> set (odict_keys merged)
               then odict_setitem merged ''R'' (VStr (py_str (odict_get merged ''R'') @ mp))
               else merged) ''W'' (VStr t)"
  note F = LSF_final [OF v m ok t mp final_def]
  have 1: "''W'' \<notin> set (odict_keys merged) \<longrightarrow>
              map_of final ''W'' = Some (VStr t) \<and> odict_keys final = odict_keys merged @ [''W'']"
    using F(2,4) by simp
  have 2: "''W'' \<in> set (odict_keys merged) \<longrightarrow>
              map_of final ''W'' = map_of merged ''W'' \<and> odict_keys final = odict_keys merged"
    using F(2,4) by simp
  from F(1) t 1 2
  have "LSF_parse_options self opts w =
           (Inr (join_options ''-'' final), w\<lparr>heap := heap w @ [final]\<rparr>)
         \<and> runlimit (odict_get merged ''q'') = Inr t
         \<and> (''W'' \<notin> set (odict_keys merged) \<longrightarrow>
              map_of final ''W'' = Some (VStr t) \<and> odict_keys final = odict_keys merged @ [''W''])
         \<and> (''W'' \<in> set (odict_keys merged) \<longrightarrow>
              map_of final ''W'' = map_of merged ''W'' \<and> odict_keys final = odict_keys merged)"
    by (intro conjI)
  then show "\<exists>final t. LSF_parse_options self opts w =
           (Inr (join_options ''-'' final), w\<lparr>heap := heap w @ [final]\<rparr>)
         \<and> runlimit (odict_get merged ''q'') = Inr t
         \<and> (''W'' \<notin> set (odict_keys merged) \<longrightarrow>
              map_of final ''W'' = Some (VStr t) \<and> odict_keys final = odict_keys merged @ [''W''])
         \<and> (''W'' \<in> set (odict_keys merged) \<longrightarrow>
              map_of final ''W'' = map_of merged ''W'' \<and> odict_keys final = odict_keys merged)"
    by (intro exI)
next
  assume "''q'' \<notin> set (odict_keys merged)"
  then show "odict_get merged ''q'' = VNone" by (rule get_absent)
next
  show "runlimit (VStr ''express'') = Inr ''0:04''" by (simp add: runlimit_eq RUNLIMITS_def)
next
  show "runlimit VNone = Inr ''4:00''" by (simp add: runlimit_eq RUNLIMITS_def)
next
  assume "q \<notin> fst ` set RUNLIMITS"
  then show "runlimit q = Inr ''4:00''" by (rule runlimit_unknown)
qed

theorem LSF_wallclock_default_witness:
  "valid example_lsf example_world
   \<and> ''n'' \<notin> set (odict_keys (odict_update (at example_world (default_opts example_lsf))
                [(''q'', VStr ''express'')]))
   \<and> ''W'' \<notin> set (odict_keys (odict_update (at example_world (default_opts example_lsf))
                [(''q'', VStr ''express'')]))
   \<and> (\<exists>final. LSF_parse_options example_lsf [(''q'', VStr ''express'')] example_world
          = (Inr (join_options ''-'' final), example_world\<lparr>heap := heap example_world @ [final]\<rparr>)
        \<and> map_of final ''W'' = Some (VStr ''0:04'')
        \<and> odict_keys final = [''R'', ''C'', ''q'', ''W''])
   \<and> ''q'' \<notin> set (odict_keys (odict_update (at example_world (default_opts example_lsf)) []))
   \<and> (\<exists>final. LSF_parse_options example_lsf [] example_world
          = (Inr (join_options ''-'' final), example_world\<lparr>heap := heap example_world @ [final]\<rparr>)
        \<and> map_of final ''W'' = Some (VStr ''4:00''))
   \<and> ''W'' \<in> set (odict_keys (odict_update (at example_world (default_opts example_lsf))
                [(''W'', VStr ''8:00''), (''q'', VStr ''express'')]))
   \<and> (\<exists>final. LSF_parse_options example_lsf [(''W'', VStr ''8:00''), (''q'', VStr ''express'')] example_world
          = (Inr (join_options ''-'' final), example_world\<lparr>heap := heap example_world @ [final]\<rparr>)
        \<and> map_of final ''W'' = Some (VStr ''8:00'')
        \<and> odict_keys final = [''R'', ''C'', ''W'', ''q''])
   \<and> VStr ''nosuch'' \<notin> fst ` set RUNLIMITS
   \<and> runlimit (VStr ''nosuch'') = Inr ''4:00''"
proof -
  note T = LSF_wallclock_default
  let ?d = "at example_world (default_opts example_lsf)"
  let ?m1 = "odict_update ?d [(''q'', VStr ''express'')]"
  let ?m2 = "odict_update ?d []"
  let ?m3 = "odict_update ?d [(''W'', VStr ''8:00''), (''q'', VStr ''express'')]"
  have n1: "''n'' \<notin> set (odict_keys ?m1)" and n2: "''n'' \<notin> set (odict_keys ?m2)"
    and n3: "''n'' \<notin> set (odict_keys ?m3)"
    by (simp_all add: ex_cell LSF_defaults_def odict_keys_def)
  have k1: "odict_keys ?m1 = [''R'', ''C'', ''q'']" and k3: "odict_keys ?m3 = [''R'', ''C'', ''W'', ''q'']"
    by (simp_all add: ex_cell LSF_defaults_def odict_keys_def)
  have W1: "''W'' \<notin> set (odict_keys ?m1)" and W2: "''W'' \<notin> set (odict_keys ?m2)"
    and W3: "''W'' \<in> set (odict_keys ?m3)"
    by (simp_all add: ex_cell LSF_defaults_def odict_keys_def)
  have q1: "odict_get ?m1 ''q'' = VStr ''express''"
    by (simp add: ex_cell LSF_defaults_def odict_get_def)
  have q2: "''q'' \<notin> set (odict_keys ?m2)" by (simp add: ex_cell LSF_defaults_def odict_keys_def)
  have m3: "map_of ?m3 ''W'' = Some (VStr ''8:00'')" by (simp add: ex_cell LSF_defaults_def)
  have u: "VStr ''nosuch'' \<notin> fst ` set RUNLIMITS" by (simp add: RUNLIMITS_def)
  note express = T [THEN conjunct2, THEN conjunct2, THEN conjunct1]
  note none = T [THEN conjunct2, THEN conjunct2, THEN conjunct2, THEN conjunct1]
  have a: "\<exists>final. LSF_parse_options example_lsf [(''q'', VStr ''express'')] example_world
          = (Inr (join_options ''-'' final), example_world\<lparr>heap := heap example_world @ [final]\<rparr>)
        \<and> map_of final ''W'' = Some (VStr ''0:04'')
        \<and> odict_keys final = [''R'', ''C'', ''q'', ''W'']"
  proof -
    from T [where self = example_lsf and w = example_world and merged = ?m1
        and opts = "[(''q'', VStr ''express'')]"] ex_valid n1 W1
    obtain final t where
      1: "LSF_parse_options example_lsf [(''q'', VStr ''express'')] example_world
          = (Inr (join_options ''-'' final), example_world\<lparr>heap := heap example_world @ [final]\<rparr>)"
      and 2: "runlimit (odict_get ?m1 ''q'') = Inr t"
      and 3: "map_of final ''W'' = Some (VStr t)"
      and 4: "odict_keys final = odict_keys ?m1 @ [''W'']"
      by blast
    from 2 q1 express have "t = ''0:04''" by simp
    with 1 3 4 k1 show ?thesis by (intro exI [of _ final]) simp
  qed
  have b: "\<exists>final. LSF_parse_options example_lsf [] example_world
          = (Inr (join_options ''-'' final), example_world\<lparr>heap := heap example_world @ [final]\<rparr>)
        \<and> map_of final ''W'' = Some (VStr ''4:00'')"
  proof -
    from T [where self = example_lsf and w = example_world and merged = ?m2 and opts = "[]"]
      ex_valid n2 W2
    obtain final t where
      1: "LSF_parse_options example_lsf [] example_world
          = (Inr (join_options ''-'' final), example_world\<lparr>heap := heap example_world @ [final]\<rparr>)"
      and 2: "runlimit (odict_get ?m2 ''q'') = Inr t"
      and 3: "map_of final ''W'' = Some (VStr t)"
      by blast
    from T [where merged = ?m2, THEN conjunct2, THEN conjunct1] q2
    have "odict_get ?m2 ''q'' = VNone" by simp
    with 2 none have "t = ''4:00''" by simp
    with 1 3 show ?thesis by (intro exI [of _ final]) simp
  qed
  have c: "\<exists>final. LSF_parse_options example_lsf [(''W'', VStr ''8:00''), (''q'', VStr ''express'')] example_world
          = (Inr (join_options ''-'' final), example_world\<lparr>heap := heap example_world @ [final]\<rparr>)
        \<and> map_of final ''W'' = Some (VStr ''8:00'')
        \<and> odict_keys final = [''R'', ''C'', ''W'', ''q'']"
  proof -
    from T [where self = example_lsf and w = example_world and merged = ?m3
        and opts = "[(''W'', VStr ''8:00''), (''q'', VStr ''express'')]"] ex_valid n3 W3
    obtain final where
      1: "LSF_parse_options example_lsf [(''W'', VStr ''8:00''), (''q'', VStr ''express'')] example_world
          = (Inr (join_options ''-'' final), example_world\<lparr>heap := heap example_world @ [final]\<rparr>)"
      and 3: "map_of final ''W'' = map_of ?m3 ''W''"
      and 4: "odict_keys final = odict_keys ?m3"
      by blast
    with m3 k3 show ?thesis by (intro exI [of _ final]) simp
  qed
  from T [where q = "VStr ''nosuch''", THEN conjunct2, THEN conjunct2, THEN conjunct2, THEN conjunct2] u
  have d: "runlimit (VStr ''nosuch'') = Inr ''4:00''" by simp
  show ?thesis using ex_valid n1 W1 a q2 b W3 c u d by (intro conjI)
qed

text \<open>
  Claim C1. Construction leaves, in the instance's own dictionary, the class defaults
  updated with the construction keywords (without \<^verbatim>\<open>max_jobs\<close>). For an instance whose
  dictionary is \<open>d0\<close> updated with \<open>kw\<close>, the options a call merges are \<open>merged\<close>: the
  value of a key is the one of the call, else the one of the instance, else the one of
  \<open>d0\<close>; the keys are those of \<open>d0\<close> in their order, then the new keys of the instance,
  then the new keys of the call, each in arrival order. \<^verbatim>\<open>Slurm.parse_options\<close>
  serialises \<open>merged\<close>. \<^verbatim>\<open>LSF.parse_options\<close>, whenever it returns, serialises a
  dictionary with the keys of \<open>merged\<close> in the same order and \<^verbatim>\<open>W\<close> appended if it is
  new, and with the value of \<open>merged\<close> at each of these keys, except that \<^verbatim>\<open>R\<close> is
  extended when \<^verbatim>\<open>n\<close> is present.
\<close>

theorem option_layers:
  "(pristine w0 \<and> LSF_init kwargs w0 = (lsf, w1) \<longrightarrow>
      valid lsf w1
      \<and> at w1 (default_opts lsf) = odict_update LSF_defaults (snd (odict_pop kwargs ''max_jobs'')))
   \<and> (pristine w0 \<and> Slurm_init kwargs w0 = (slurm, w2) \<longrightarrow>
      valid slurm w2
      \<and> at w2 (default_opts slurm) = odict_update Slurm_defaults (snd (odict_pop kwargs ''max_jobs'')))
   \<and> (distinct (odict_keys kwargs) \<and> distinct (odict_keys opts)
      \<and> kw = snd (odict_pop kwargs ''max_jobs'')
      \<and> valid self w \<and> at w (default_opts self) = odict_update d0 kw
      \<and> merged = odict_update (odict_update d0 kw) opts \<longrightarrow>
      map_of merged k =
        (case map_of opts k of
           Some v \<Rightarrow> Some v
         | None \<Rightarrow> (case map_of kw k of Some v \<Rightarrow> Some v | None \<Rightarrow> map_of d0 k))
      \<and> odict_keys merged =
          odict_keys d0 @ filter (\<lambda>k. k \<notin> set (odict_keys d0)) (odict_keys kw)
            @ filter (\<lambda>k. k \<notin> set (odict_keys d0) \<and> k \<notin> set (odict_keys kw)) (odict_keys opts)
      \<and> Slurm_parse_options self opts w =
          (Inr (join_options ''--'' merged), w\<lparr>heap := heap w @ [merged]\<rparr>)
      \<and> (''n'' \<notin> set (odict_keys merged) \<or> (\<exists>r. map_of merged ''R'' = Some (VStr r)) \<longrightarrow>
          (\<exists>final. LSF_parse_options self opts w =
               (Inr (join_options ''-'' final), w\<lparr>heap := heap w @ [final]\<rparr>)
             \<and> odict_keys final =
                 (if ''W'' \<in> set (odict_keys merged) then odict_keys merged
                  else odict_keys merged @ [''W''])
             \<and> (\<forall>j. j \<in> set (odict_keys merged)
                    \<and> (j = ''R'' \<longrightarrow> ''n'' \<notin> set (odict_keys merged)) \<longrightarrow>
                    map_of final j = map_of merged j))))"
proof (intro conjI impI)
  assume "pristine w0 \<and> LSF_init kwargs w0 = (lsf, w1)"
  then have "valid lsf w1
     \<and> at w1 (default_opts lsf) = odict_update LSF_defaults (snd (odict_pop kwargs ''max_jobs''))"
    using LSF_init_cell by blast
  then show "valid lsf w1"
    and "at w1 (default_opts lsf) = odict_update LSF_defaults (snd (odict_pop kwargs ''max_jobs''))"
    by simp_all
next
  assume "pristine w0 \<and> Slurm_init kwargs w0 = (slurm, w2)"
  then have "valid slurm w2
     \<and> at w2 (default_opts slurm) = odict_update Slurm_defaults (snd (odict_pop kwargs ''max_jobs''))"
    using Slurm_init_cell by blast
  then show "valid slurm w2"
    and "at w2 (default_opts slurm) = odict_update Slurm_defaults (snd (odict_pop kwargs ''max_jobs''))"
    by simp_all
next
  assume a: "distinct (odict_keys kwargs) \<and> distinct (odict_keys opts)
      \<and> kw = snd (odict_pop kwargs ''max_jobs'')
      \<and> valid self w \<and> at w (default_opts self) = odict_update d0 kw
      \<and> merged = odict_update (odict_update d0 kw) opts"
  then have dk: "distinct (odict_keys kw)" and dopts: "distinct (odict_keys opts)"
    by (simp_all add: distinct_pop)
  from a have v: "valid self w" by blast
  from a have m: "merged = odict_update (at w (default_opts self)) opts" by simp
  from a have m': "merged = odict_update (odict_update d0 kw) opts" by blast
  show "map_of merged k =
        (case map_of opts k of
           Some v \<Rightarrow> Some v
         | None \<Rightarrow> (case map_of kw k of Some v \<Rightarrow> Some v | None \<Rightarrow> map_of d0 k))"
    unfolding m' by (rule layers_map_of [OF dk dopts])
  show "odict_keys merged =
          odict_keys d0 @ filter (\<lambda>k. k \<notin> set (odict_keys d0)) (odict_keys kw)
            @ filter (\<lambda>k. k \<notin> set (odict_keys d0) \<and> k \<notin> set (odict_keys kw)) (odict_keys opts)"
    unfolding m' by (rule layers_keys [OF dk dopts])
  show "Slurm_parse_options self opts w =
          (Inr (join_options ''--'' merged), w\<lparr>heap := heap w @ [merged]\<rparr>)"
    unfolding m by (rule Slurm_parse_options_eq [OF v])
  show "\<exists>final. LSF_parse_options self opts w =
               (Inr (join_options ''-'' final), w\<lparr>heap := heap w @ [final]\<rparr>)
             \<and> odict_keys final =
                 (if ''W'' \<in> set (odict_keys merged) then odict_keys merged
                  else odict_keys merged @ [''W''])
             \<and> (\<forall>j. j \<in> set (odict_keys merged)
                    \<and> (j = ''R'' \<longrightarrow> ''n'' \<notin> set (odict_keys merged)) \<longrightarrow>
                    map_of final j = map_of merged j)"
    if ok: "''n'' \<notin> set (odict_keys merged) \<or> (\<exists>r. map_of merged ''R'' = Some (VStr r))"
  proof -
    obtain t where t: "runlimit (odict_get merged ''q'') = Inr t" using runlimit_total by blast
    obtain mp where mp: "mpiopts (odict_get merged ''q'') = Inr mp" using mpiopts_total by blast
    define final where "final = odict_setdefault
              (if ''n'' \<in> set (odict_keys merged)
               then odict_setitem merged ''R'' (VStr (py_str (odict_get merged ''R'') @ mp))
               else merged) ''W'' (VStr t)"
    note F = LSF_final [OF v m ok t mp final_def]
    have 3: "\<forall>j. j \<in> set (odict_keys merged)
                    \<and> (j = ''R'' \<longrightarrow> ''n'' \<notin> set (odict_keys merged)) \<longrightarrow>
                    map_of final j = map_of merged j"
    proof (intro allI impI)
      fix j
      assume j: "j \<in> set (odict_keys merged)
                    \<and> (j = ''R'' \<longrightarrow> ''n'' \<notin> set (odict_keys merged))"
      consider "j = ''W''" | "j = ''R''" | "j \<noteq> ''W''" "j \<noteq> ''R''" by blast
      then show "map_of final j = map_of merged j"
      proof cases
        case 1
        with j F(4) show ?thesis by simp
      next
        case 2
        with j F(5) show ?thesis by simp
      next
        case 3
        then show ?thesis by (simp add: F(3))
      qed
    qed
    from F(1) F(2) 3 show ?thesis by (intro exI [of _ final] conjI)
  qed
qed

theorem option_layers_witness:
  "pristine (initial_world ''me'')
   \<and> distinct (odict_keys [(''max_jobs'', VInt 2), (''C'', VInt 1), (''q'', VStr ''long'')])
   \<and> distinct (odict_keys [(''q'', VStr ''express''), (''J'', VStr ''job'')])
   \<and> (case LSF_init [(''max_jobs'', VInt 2), (''C'', VInt 1), (''q'', VStr ''long'')]
              (initial_world ''me'') of
         (lsf, w1) \<Rightarrow>
           valid lsf w1
           \<and> (\<exists>final. LSF_parse_options lsf [(''q'', VStr ''express''), (''J'', VStr ''job'')] w1
                  = (Inr (join_options ''-'' final), w1\<lparr>heap := heap w1 @ [final]\<rparr>)
                \<and> odict_keys final = [''R'', ''C'', ''q'', ''J'', ''W'']
                \<and> map_of final ''R'' = Some (VStr ''\"scratch > 1 && rhel60\"'')
                \<and> map_of final ''C'' = Some (VInt 1)
                \<and> map_of final ''q'' = Some (VStr ''express'')))
   \<and> (case Slurm_init [(''mem'', VInt 5)] (initial_world ''me'') of
         (slurm, w2) \<Rightarrow>
           valid slurm w2
           \<and> fst (Slurm_parse_options slurm [(''mem'', VInt 7), (''x'', VStr ''y'')] w2)
               = Inr ''--account kicp --partition kicp-ht --mem 7 --x y '')"
proof -
  note T = option_layers
  let ?K = "[(''max_jobs'', VInt 2), (''C'', VInt 1), (''q'', VStr ''long'')]"
  let ?kw = "[(''C'', VInt 1), (''q'', VStr ''long'')]"
  let ?O = "[(''q'', VStr ''express''), (''J'', VStr ''job'')]"
  let ?w0 = "initial_world ''me''"
  have p: "pristine ?w0" by (rule pristine_initial)
  have dK: "distinct (odict_keys ?K)" and dO: "distinct (odict_keys ?O)"
    by (simp_all add: odict_keys_def)
  have kw: "?kw = snd (odict_pop ?K ''max_jobs'')" by (simp add: odict_pop_def)
  obtain lsf w1 where i: "LSF_init ?K ?w0 = (lsf, w1)" by (cases "LSF_init ?K ?w0")
  from T [where ?w0.0 = ?w0 and kwargs = ?K and lsf = lsf and ?w1.0 = w1] p i
  have v: "valid lsf w1" and c: "at w1 (default_opts lsf) = odict_update LSF_defaults ?kw"
    by (simp_all add: odict_pop_def)
  let ?m = "odict_update (odict_update LSF_defaults ?kw) ?O"
  have mk: "odict_keys ?m = [''R'', ''C'', ''q'', ''J'']"
    and mR: "map_of ?m ''R'' = Some (VStr ''\"scratch > 1 && rhel60\"'')"
    and mC: "map_of ?m ''C'' = Some (VInt 1)"
    and mq: "map_of ?m ''q'' = Some (VStr ''express'')"
    by (simp_all add: LSF_defaults_def odict_keys_def)
  note L = T [where kwargs = ?K and opts = ?O and kw = ?kw and self = lsf and w = w1
      and ?d0.0 = LSF_defaults and merged = ?m,
      THEN conjunct2, THEN conjunct2, rule_format, OF conjI [OF dK conjI [OF dO conjI [OF kw conjI [OF v conjI [OF c refl]]]]]]
  from L [THEN conjunct2, THEN conjunct2, THEN conjunct2] mk
  obtain final where
    1: "LSF_parse_options lsf ?O w1 = (Inr (join_options ''-'' final), w1\<lparr>heap := heap w1 @ [final]\<rparr>)"
    and 2: "odict_keys final = odict_keys ?m @ [''W'']"
    and 3: "\<forall>j. j \<in> set (odict_keys ?m) \<and> (j = ''R'' \<longrightarrow> ''n'' \<notin> set (odict_keys ?m)) \<longrightarrow>
                    map_of final j = map_of ?m j"
    by auto
  from 3 mk mR have fR: "map_of final ''R'' = Some (VStr ''\"scratch > 1 && rhel60\"'')" by simp
  from 3 mk mC have fC: "map_of final ''C'' = Some (VInt 1)" by simp
  from 3 mk mq have fq: "map_of final ''q'' = Some (VStr ''express'')" by simp
  from 2 mk have fk: "odict_keys final = [''R'', ''C'', ''q'', ''J'', ''W'']" by simp
  have A: "\<exists>final. LSF_parse_options lsf ?O w1
                  = (Inr (join_options ''-'' final), w1\<lparr>heap := heap w1 @ [final]\<rparr>)
                \<and> odict_keys final = [''R'', ''C'', ''q'', ''J'', ''W'']
                \<and> map_of final ''R'' = Some (VStr ''\"scratch > 1 && rhel60\"'')
                \<and> map_of final ''C'' = Some (VInt 1)
                \<and> map_of final ''q'' = Some (VStr ''express'')"
    using 1 fk fR fC fq by (intro exI [of _ final] conjI)
  let ?S = "[(''mem'', VInt 5)]"
  let ?P = "[(''mem'', VInt 7), (''x'', VStr ''y'')]"
  obtain slurm w2 where j: "Slurm_init ?S ?w0 = (slurm, w2)" by (cases "Slurm_init ?S ?w0")
  from T [where ?w0.0 = ?w0 and kwargs = ?S and slurm = slurm and ?w2.0 = w2] p j
  have v2: "valid slurm w2" and c2: "at w2 (default_opts slurm) = odict_update Slurm_defaults ?S"
    by (simp_all add: odict_pop_def)
  have dS: "distinct (odict_keys ?S)" and dP: "distinct (odict_keys ?P)"
    by (simp_all add: odict_keys_def)
  have kS: "?S = snd (odict_pop ?S ''max_jobs'')" by (simp add: odict_pop_def)
  let ?n = "odict_update (odict_update Slurm_defaults ?S) ?P"
  note M = T [where kwargs = ?S and opts = ?P and kw = ?S and self = slurm and w = w2
      and ?d0.0 = Slurm_defaults and merged = ?n,
      THEN conjunct2, THEN conjunct2, rule_format, OF conjI [OF dS conjI [OF dP conjI [OF kS conjI [OF v2 conjI [OF c2 refl]]]]]]
  from M [THEN conjunct2, THEN conjunct2, THEN conjunct1]
  have B: "fst (Slurm_parse_options slurm ?P w2)
               = Inr ''--account kicp --partition kicp-ht --mem 7 --x y ''"
    by (simp add: Slurm_defaults_def join_options_def str_of_int_def digit_def)
  show ?thesis using p dK dO v A v2 B by (simp only: i j split_conv)
qed

text \<open>
  Claim C6. On a \<^verbatim>\<open>Local\<close> backend built without \<^verbatim>\<open>max_jobs\<close>, \<^verbatim>\<open>submit\<close> with a non-empty
  log file returns the command, a space, and the \<^verbatim>\<open>tee\<close> clause, whatever the job name
  and the other options are; its throttle step returns at once, and the environment
  changes only by the logged and run command: no queue listing, no sleep. For
  \<^verbatim>\<open>submit('echo hi', jobname='j1', logfile='out.log')\<close> the result is
  \<^verbatim>\<open>echo hi  2>&1 | tee out.log\<close>.
\<close>

theorem Local_submit:
  "(Local_init kwargs w0 = (self, w) \<and> odict_get kwargs ''max_jobs'' = VNone \<and> lf \<noteq> [] \<longrightarrow>
      throttle self sh VNone 60 w = Some (Inr (), w)
      \<and> submit self sh command jobname (VStr lf) opts w =
          Some (Inr (command @ '' '' @ '' 2>&1 | tee '' @ lf),
                call (command @ '' '' @ '' 2>&1 | tee '' @ lf) w)
      \<and> popens (call (command @ '' '' @ '' 2>&1 | tee '' @ lf) w) = popens w
      \<and> slept (call (command @ '' '' @ '' 2>&1 | tee '' @ lf) w) = slept w)
   \<and> (Local_init [] w0 = (self, w) \<longrightarrow>
        submit self sh ''echo hi'' (VStr ''j1'') (VStr ''out.log'') [] w =
          Some (Inr ''echo hi  2>&1 | tee out.log'', call ''echo hi  2>&1 | tee out.log'' w))"
proof -
  have main: "throttle self sh VNone 60 w = Some (Inr (), w)
      \<and> submit self sh command jobname (VStr lf) opts w =
          Some (Inr (command @ '' '' @ '' 2>&1 | tee '' @ lf),
                call (command @ '' '' @ '' 2>&1 | tee '' @ lf) w)
      \<and> popens (call (command @ '' '' @ '' 2>&1 | tee '' @ lf) w) = popens w
      \<and> slept (call (command @ '' '' @ '' 2>&1 | tee '' @ lf) w) = slept w"
    if i: "Local_init kwargs w0 = (self, w)" and m: "odict_get kwargs ''max_jobs'' = VNone"
      and l: "lf \<noteq> []" for kwargs command jobname lf opts
  proof -
    from i have c: "cls self = Local" and s: "submit_cmd self = [Command, Lit '' '', Opts]"
      and mj: "max_jobs self = odict_get kwargs ''max_jobs''"
      by (auto simp: Local_init_eq)
    from mj m have t: "throttle self sh VNone 60 w = Some (Inr (), w)" by (simp add: throttle_None)
    from Local_batch [OF c s l] t
    have "submit self sh command jobname (VStr lf) opts w =
          Some (Inr (command @ '' '' @ '' 2>&1 | tee '' @ lf),
                call (command @ '' '' @ '' 2>&1 | tee '' @ lf) w)"
      by (simp add: submit_throttle)
    with t show ?thesis by (simp add: call_def log_def)
  qed
  have "submit self sh ''echo hi'' (VStr ''j1'') (VStr ''out.log'') [] w =
          Some (Inr ''echo hi  2>&1 | tee out.log'', call ''echo hi  2>&1 | tee out.log'' w)"
    if i: "Local_init [] w0 = (self, w)"
    using main [OF i, of "''out.log''" "''echo hi''" "VStr ''j1''" "[]"]
    by (simp add: odict_get_def)
  with main show ?thesis by blast
qed

theorem Local_submit_witness:
  "odict_get [] ''max_jobs'' = VNone
   \<and> (case Local_init [] (initial_world ''me'') of
         (self, w) \<Rightarrow>
           throttle self (\<lambda>c i. ''1'') VNone 60 w = Some (Inr (), w)
           \<and> (\<exists>w'. submit self (\<lambda>c i. ''1'') ''echo hi'' (VStr ''j1'') (VStr ''out.log'') [] w =
                  Some (Inr ''echo hi  2>&1 | tee out.log'', w')
                \<and> popens w' = popens w \<and> called w' = [''echo hi  2>&1 | tee out.log'']))"
proof -
  obtain self w where i: "Local_init [] (initial_world ''me'') = (self, w)"
    by (cases "Local_init [] (initial_world ''me'')")
  have m: "odict_get [] ''max_jobs'' = VNone" by (simp add: odict_get_def)
  have l: "''out.log'' \<noteq> []" by simp
  from i have cw: "called w = []" by (auto simp: Local_init_eq initial_world_def)
  note T = Local_submit [where kwargs = "[]" and ?w0.0 = "initial_world ''me''" and self = self
      and w = w and sh = "\<lambda>c i. ''1''" and lf = "''out.log''" and command = "''echo hi''"
      and jobname = "VStr ''j1''" and opts = "[]"]
  from T [THEN conjunct1, rule_format, OF conjI [OF i conjI [OF m l]]]
  have t: "throttle self (\<lambda>c i. ''1'') VNone 60 w = Some (Inr (), w)"
    and p: "popens (call (''echo hi'' @ '' '' @ '' 2>&1 | tee '' @ ''out.log'') w) = popens w"
    by blast+
  from T [THEN conjunct2, rule_format, OF i]
  have s: "submit self (\<lambda>c i. ''1'') ''echo hi'' (VStr ''j1'') (VStr ''out.log'') [] w =
          Some (Inr ''echo hi  2>&1 | tee out.log'', call ''echo hi  2>&1 | tee out.log'' w)" .
  have c: "called (call ''echo hi  2>&1 | tee out.log'' w) = [''echo hi  2>&1 | tee out.log'']"
    using cw by (simp add: call_def log_def)
  from p have p': "popens (call ''echo hi  2>&1 | tee out.log'' w) = popens w" by simp
  from s p' c have "\<exists>w'. submit self (\<lambda>c i. ''1'') ''echo hi'' (VStr ''j1'') (VStr ''out.log'') [] w =
                  Some (Inr ''echo hi  2>&1 | tee out.log'', w')
                \<and> popens w' = popens w \<and> called w' = [''echo hi  2>&1 | tee out.log'']"
    by (intro exI [of _ "call ''echo hi  2>&1 | tee out.log'' w"] conjI)
  with m t show ?thesis by (simp only: i split_conv simp_thms)
qed

text \<open>
  Claim C7. \<^verbatim>\<open>factory(None, **kwargs)\<close> is \<^verbatim>\<open>factory('local', **kwargs)\<close>: same result, same
  effects. In a module whose class defaults are intact, both return a \<^verbatim>\<open>Local\<close> backend
  (with the default options \<^verbatim>\<open>q = local\<close>), and \<^verbatim>\<open>factory('kipac-ibq')\<close> returns an \<^verbatim>\<open>LSF\<close>
  backend whose default options are the class defaults followed by \<^verbatim>\<open>q = kipac-ibq\<close>;
  the name is one of the queue names of \<^verbatim>\<open>QUEUES\<close>.
\<close>

theorem factory_default_is_local:
  "factory None kwargs w = factory (Some ''local'') kwargs w
   \<and> (pristine w \<longrightarrow>
        factory None [] w =
          (Inr \<lparr>cls = Local, username = os_user w, max_jobs = VNone,
                default_opts = length (heap w),
                submit_cmd = [Command, Lit '' '', Opts], jobs_cmd = ''echo 0''\<rparr>,
           w\<lparr>heap := heap w @ [[(''q'', VStr ''local'')]]\<rparr>)
        \<and> factory (Some ''kipac-ibq'') [] w =
          (Inr \<lparr>cls = LSF, username = os_user w, max_jobs = VNone,
                default_opts = length (heap w),
                submit_cmd = [Lit ''bsub '', Opts, Lit '' '', Command],
                jobs_cmd = ''bjobs -u '' @ os_user w\<rparr>,
           w\<lparr>heap := heap w @ [LSF_defaults @ [(''q'', VStr ''kipac-ibq'')]]\<rparr>))
   \<and> ''kipac-ibq'' \<in> set (concat (map snd QUEUES))"
proof (intro conjI impI)
  show e: "factory None kwargs w = factory (Some ''local'') kwargs w" for kwargs
    by (simp add: factory_def)
  show "''kipac-ibq'' \<in> set (concat (map snd QUEUES))" by (simp add: QUEUES_def)
  assume p: "pristine w"
  show "factory None [] w =
          (Inr \<lparr>cls = Local, username = os_user w, max_jobs = VNone,
                default_opts = length (heap w),
                submit_cmd = [Command, Lit '' '', Opts], jobs_cmd = ''echo 0''\<rparr>,
           w\<lparr>heap := heap w @ [[(''q'', VStr ''local'')]]\<rparr>)"
    using factory_local [OF p] by (simp add: factory_def)
  show "factory (Some ''kipac-ibq'') [] w =
          (Inr \<lparr>cls = LSF, username = os_user w, max_jobs = VNone,
                default_opts = length (heap w),
                submit_cmd = [Lit ''bsub '', Opts, Lit '' '', Command],
                jobs_cmd = ''bjobs -u '' @ os_user w\<rparr>,
           w\<lparr>heap := heap w @ [LSF_defaults @ [(''q'', VStr ''kipac-ibq'')]]\<rparr>)"
    by (rule factory_kipac [OF p])
qed

theorem factory_default_is_local_witness:
  "pristine (initial_world ''me'')
   \<and> factory None [] (initial_world ''me'') = factory (Some ''local'') [] (initial_world ''me'')
   \<and> (\<exists>b w. factory None [] (initial_world ''me'') = (Inr b, w) \<and> cls b = Local
          \<and> at w (default_opts b) = [(''q'', VStr ''local'')])
   \<and> (\<exists>b w. factory (Some ''kipac-ibq'') [] (initial_world ''me'') = (Inr b, w) \<and> cls b = LSF
          \<and> at w (default_opts b) =
               [(''R'', VStr ''\"scratch > 1 && rhel60\"''), (''C'', VInt 0),
                (''q'', VStr ''kipac-ibq'')])"
proof -
  have p: "pristine (initial_world ''me'')" by (rule pristine_initial)
  note T = factory_default_is_local [where w = "initial_world ''me''" and kwargs = "[]"]
  note A = T [THEN conjunct1]
  note B = T [THEN conjunct2, THEN conjunct1, rule_format, OF p, THEN conjunct1]
  note C = T [THEN conjunct2, THEN conjunct1, rule_format, OF p, THEN conjunct2]
  have b: "\<exists>b w. factory None [] (initial_world ''me'') = (Inr b, w) \<and> cls b = Local
          \<and> at w (default_opts b) = [(''q'', VStr ''local'')]"
    unfolding B by (simp add: at_def initial_world_def class_dicts_def)
  have c: "\<exists>b w. factory (Some ''kipac-ibq'') [] (initial_world ''me'') = (Inr b, w) \<and> cls b = LSF
          \<and> at w (default_opts b) =
               [(''R'', VStr ''\"scratch > 1 && rhel60\"''), (''C'', VInt 0),
                (''q'', VStr ''kipac-ibq'')]"
    unfolding C by (simp add: at_def initial_world_def class_dicts_def LSF_defaults_def)
  from p A b c show ?thesis by (intro conjI)
qed

text \<open>
  Claim C8. With \<open>name\<close> the lower-cased queue (\<^verbatim>\<open>local\<close> for \<^verbatim>\<open>None\<close>): a name of the condor
  family that no earlier family has makes the factory raise
  \<^verbatim>\<open>Exception("Condor cluster not implemented")\<close>; a name of no family makes it raise
  \<^verbatim>\<open>TypeError\<close> with the unexpected name; every other name returns a backend of the first
  family that has it. The names of the first kind are \<^verbatim>\<open>condor\<close>, \<^verbatim>\<open>fnal\<close>, \<^verbatim>\<open>vanilla\<close>,
  \<^verbatim>\<open>universe\<close> and \<^verbatim>\<open>grid\<close>.
\<close>

theorem factory_errors:
  "(name = lower (case queue of None \<Rightarrow> ''local'' | Some q \<Rightarrow> q) \<longrightarrow>
      (name \<in> set (family ''condor'')
         \<and> name \<notin> set (family ''local'' @ family ''lsf'' @ family ''slurm'') \<longrightarrow>
         fst (factory queue kwargs w) = Inl (Exception ''Condor cluster not implemented''))
    \<and> (name \<notin> set (family ''local'' @ family ''lsf'' @ family ''slurm'' @ family ''condor'') \<longrightarrow>
         fst (factory queue kwargs w) = Inl (TypeError (''Unexpected queue name: '' @ name)))
    \<and> (name \<in> set (family ''local'' @ family ''lsf'' @ family ''slurm'') \<longrightarrow>
         (\<exists>b. fst (factory queue kwargs w) = Inr b
            \<and> cls b = (if name \<in> set (family ''local'') then Local
                       else if name \<in> set (family ''lsf'') then LSF else Slurm))))
   \<and> filter (\<lambda>n. n \<notin> set (family ''local'' @ family ''lsf'' @ family ''slurm'')) (family ''condor'')
       = [''condor'', ''fnal'', ''vanilla'', ''universe'', ''grid'']"
proof (intro conjI impI)
  assume n: "name = lower (case queue of None \<Rightarrow> ''local'' | Some q \<Rightarrow> q)"
    and "name \<in> set (family ''condor'')
         \<and> name \<notin> set (family ''local'' @ family ''lsf'' @ family ''slurm'')"
  then show "fst (factory queue kwargs w) = Inl (Exception ''Condor cluster not implemented'')"
    by (simp add: factory_eq Let_def)
next
  assume n: "name = lower (case queue of None \<Rightarrow> ''local'' | Some q \<Rightarrow> q)"
    and "name \<notin> set (family ''local'' @ family ''lsf'' @ family ''slurm'' @ family ''condor'')"
  then show "fst (factory queue kwargs w) = Inl (TypeError (''Unexpected queue name: '' @ name))"
    by (simp add: factory_eq Let_def)
next
  assume n: "name = lower (case queue of None \<Rightarrow> ''local'' | Some q \<Rightarrow> q)"
    and "name \<in> set (family ''local'' @ family ''lsf'' @ family ''slurm'')"
  then show "\<exists>b. fst (factory queue kwargs w) = Inr b
            \<and> cls b = (if name \<in> set (family ''local'') then Local
                       else if name \<in> set (family ''lsf'') then LSF else Slurm)"
    by (auto simp: factory_eq Let_def init_cls)
next
  show "filter (\<lambda>n. n \<notin> set (family ''local'' @ family ''lsf'' @ family ''slurm'')) (family ''condor'')
       = [''condor'', ''fnal'', ''vanilla'', ''universe'', ''grid'']"
    by (simp add: family_def names_of_def CLUSTERS_def QUEUES_def)
qed

theorem factory_errors_witness:
  "lower ''FNAL'' \<in> set (family ''condor'')
   \<and> lower ''FNAL'' \<notin> set (family ''local'' @ family ''lsf'' @ family ''slurm'')
   \<and> fst (factory (Some ''FNAL'') [] (initial_world ''me''))
       = Inl (Exception ''Condor cluster not implemented'')
   \<and> lower ''foo'' \<notin> set (family ''local'' @ family ''lsf'' @ family ''slurm'' @ family ''condor'')
   \<and> fst (factory (Some ''foo'') [] (initial_world ''me''))
       = Inl (TypeError ''Unexpected queue name: foo'')
   \<and> lower ''Midway'' \<in> set (family ''local'' @ family ''lsf'' @ family ''slurm'')
   \<and> (\<exists>b. fst (factory (Some ''Midway'') [] (initial_world ''me'')) = Inr b \<and> cls b = Slurm)"
proof -
  note T = factory_errors [THEN conjunct1, rule_format, OF refl]
  have 1: "lower ''FNAL'' \<in> set (family ''condor'')"
    and 2: "lower ''FNAL'' \<notin> set (family ''local'' @ family ''lsf'' @ family ''slurm'')"
    and 3: "lower ''foo'' \<notin> set (family ''local'' @ family ''lsf'' @ family ''slurm'' @ family ''condor'')"
    and 4: "lower ''Midway'' \<in> set (family ''local'' @ family ''lsf'' @ family ''slurm'')"
    and 5: "lower ''Midway'' \<notin> set (family ''local'')" "lower ''Midway'' \<notin> set (family ''lsf'')"
    and 6: "lower ''foo'' = ''foo''"
    by (simp_all add: table_eval)
  from T [where queue = "Some ''FNAL''" and kwargs = "[]" and w = "initial_world ''me''"] 1 2
  have a: "fst (factory (Some ''FNAL'') [] (initial_world ''me''))
       = Inl (Exception ''Condor cluster not implemented'')"
    by simp
  from T [where queue = "Some ''foo''" and kwargs = "[]" and w = "initial_world ''me''"] 3 6
  have b: "fst (factory (Some ''foo'') [] (initial_world ''me''))
       = Inl (TypeError ''Unexpected queue name: foo'')"
    by simp
  from T [where queue = "Some ''Midway''" and kwargs = "[]" and w = "initial_world ''me''"] 4 5
  have c: "\<exists>b. fst (factory (Some ''Midway'') [] (initial_world ''me'')) = Inr b \<and> cls b = Slurm"
    by simp
  from 1 2 a 3 b 4 c show ?thesis by (intro conjI)
qed

text \<open>
  Claim C10. \<^verbatim>\<open>local\<close> is a queue name of the condor entry of \<^verbatim>\<open>QUEUES\<close>, so
  \<^verbatim>\<open>factory('local')\<close> and \<^verbatim>\<open>factory(None)\<close> return a \<^verbatim>\<open>Local\<close> backend whose default
  options are \<^verbatim>\<open>q = local\<close>. In general, whenever the name is a queue name of any entry,
  \<^verbatim>\<open>q\<close> is not given and a backend is returned, its default options have \<^verbatim>\<open>q\<close> set to
  the name. \<^verbatim>\<open>Local.parse_options\<close> reads only \<^verbatim>\<open>logfile\<close> of the call's options and
  never the default options.
\<close>

theorem factory_sets_q_for_any_queue:
  "''local'' \<in> set (names_of QUEUES ''condor'')
   \<and> (pristine w \<longrightarrow>
        (\<exists>b w'. factory (Some ''local'') [] w = (Inr b, w') \<and> factory None [] w = (Inr b, w')
           \<and> cls b = Local \<and> at w' (default_opts b) = [(''q'', VStr ''local'')]))
   \<and> (name = lower (case queue of None \<Rightarrow> ''local'' | Some q \<Rightarrow> q)
        \<and> name \<in> set (concat (map snd QUEUES)) \<and> ''q'' \<notin> set (odict_keys kwargs)
        \<and> factory queue kwargs w = (Inr b, w') \<longrightarrow>
        valid b w' \<and> map_of (at w' (default_opts b)) ''q'' = Some (VStr name))
   \<and> Local_parse_options self opts w =
        (Inr (if truthy (odict_get opts ''logfile'')
              then '' 2>&1 | tee '' @ py_str (odict_get opts ''logfile'') else []), w)"
proof (intro conjI impI)
  show "''local'' \<in> set (names_of QUEUES ''condor'')" by (simp add: names_of_def QUEUES_def)
next
  assume p: "pristine w"
  have "factory None [] w = factory (Some ''local'') [] w" by (simp add: factory_def)
  then show "\<exists>b w'. factory (Some ''local'') [] w = (Inr b, w') \<and> factory None [] w = (Inr b, w')
           \<and> cls b = Local \<and> at w' (default_opts b) = [(''q'', VStr ''local'')]"
    by (simp add: factory_local [OF p] at_def)
next
  assume a: "name = lower (case queue of None \<Rightarrow> ''local'' | Some q \<Rightarrow> q)
        \<and> name \<in> set (concat (map snd QUEUES)) \<and> ''q'' \<notin> set (odict_keys kwargs)
        \<and> factory queue kwargs w = (Inr b, w')"
  then have "valid b w' \<and> map_of (at w' (default_opts b)) ''q'' = Some (VStr name)"
    by (intro factory_sets_q) blast+
  then show "valid b w'" and "map_of (at w' (default_opts b)) ''q'' = Some (VStr name)"
    by blast+
next
  show "Local_parse_options self opts w =
        (Inr (if truthy (odict_get opts ''logfile'')
              then '' 2>&1 | tee '' @ py_str (odict_get opts ''logfile'') else []), w)"
    by (rule Local_parse_options_eq)
qed

theorem factory_sets_q_for_any_queue_witness:
  "pristine (initial_world ''me'')
   \<and> (\<exists>b w'. factory (Some ''local'') [] (initial_world ''me'') = (Inr b, w')
         \<and> factory None [] (initial_world ''me'') = (Inr b, w')
         \<and> cls b = Local \<and> at w' (default_opts b) = [(''q'', VStr ''local'')])
   \<and> lower ''Express'' \<in> set (concat (map snd QUEUES))
   \<and> ''q'' \<notin> set (odict_keys [(''max_jobs'', VInt 2)])
   \<and> (\<exists>b w'. factory (Some ''Express'') [(''max_jobs'', VInt 2)] (initial_world ''me'') = (Inr b, w')
         \<and> cls b = LSF \<and> map_of (at w' (default_opts b)) ''q'' = Some (VStr ''express''))"
proof -
  have p: "pristine (initial_world ''me'')" by (rule pristine_initial)
  note T = factory_sets_q_for_any_queue
  from T [where w = "initial_world ''me''", THEN conjunct2, THEN conjunct1] p
  have a: "\<exists>b w'. factory (Some ''local'') [] (initial_world ''me'') = (Inr b, w')
         \<and> factory None [] (initial_world ''me'') = (Inr b, w')
         \<and> cls b = Local \<and> at w' (default_opts b) = [(''q'', VStr ''local'')]"
    by simp
  have l: "lower ''Express'' = ''express''" by (simp add: lower_def lower_char_def)
  have u: "lower ''Express'' \<in> set (concat (map snd QUEUES))" by (simp add: l QUEUES_def)
  have q: "''q'' \<notin> set (odict_keys [(''max_jobs'', VInt 2)])" by (simp add: odict_keys_def)
  obtain r w' where f: "factory (Some ''Express'') [(''max_jobs'', VInt 2)] (initial_world ''me'') = (r, w')"
    by (cases "factory (Some ''Express'') [(''max_jobs'', VInt 2)] (initial_world ''me'')")
  have "\<exists>b. r = Inr b \<and> cls b = LSF"
    using f by (auto simp: factory_eq Let_def table_eval init_cls)
  then obtain b where r: "r = Inr b" and c: "cls b = LSF" by blast
  from T [where name = "lower ''Express''" and queue = "Some ''Express''"
      and kwargs = "[(''max_jobs'', VInt 2)]" and w = "initial_world ''me''" and b = b and w' = w',
      THEN conjunct2, THEN conjunct2, THEN conjunct1] u q f r l
  have "map_of (at w' (default_opts b)) ''q'' = Some (VStr ''express'')" by simp
  with f r c have b: "\<exists>b w'. factory (Some ''Express'') [(''max_jobs'', VInt 2)] (initial_world ''me'') = (Inr b, w')
         \<and> cls b = LSF \<and> map_of (at w' (default_opts b)) ''q'' = Some (VStr ''express'')"
    by blast
  from p a u q b show ?thesis by (intro conjI)
qed

text \<open>
  Claim C9. The tables \<^verbatim>\<open>CLUSTERS\<close>, \<^verbatim>\<open>QUEUES\<close>, \<^verbatim>\<open>RUNLIMITS\<close>, \<^verbatim>\<open>MPIOPTS\<close> and the
  \<^verbatim>\<open>_mapping\<close> attributes are only read. For the dictionaries that are passed by
  reference: construction puts the instance defaults into a new object; the factory,
  \<^verbatim>\<open>parse_options\<close>, \<^verbatim>\<open>batch\<close> and \<^verbatim>\<open>submit\<close> leave every existing object as it is (they
  only add objects), and \<^verbatim>\<open>throttle\<close> leaves the heap as it is. So the class defaults
  stay intact and an instance keeps its default options, the result of \<^verbatim>\<open>batch\<close>
  depends on the environment only through these default options, and a repeated
  call returns what the first call returned.
\<close>

theorem no_shared_mutation:
  "(Batch_init c kwargs w = (self0, w') \<longrightarrow>
      keeps_dicts w w' \<and> default_opts self0 = length (heap w)
      \<and> at w' (default_opts self0)
          = odict_update (at w (defaults_of c)) (snd (odict_pop kwargs ''max_jobs'')))
   \<and> (factory queue kwargs w = (rf, w') \<longrightarrow> keeps_dicts w w')
   \<and> (parse_options self opts w = (rp, w') \<longrightarrow> keeps_dicts w w')
   \<and> (batch self command jobname logfile opts w = (rb, w') \<longrightarrow> keeps_dicts w w')
   \<and> (throttle self sh mj sleep w = Some (rt, w') \<longrightarrow> heap w' = heap w)
   \<and> (submit self sh command jobname logfile opts w = Some (rs, w') \<longrightarrow> keeps_dicts w w')
   \<and> (keeps_dicts w w' \<and> pristine w \<longrightarrow> pristine w')
   \<and> (keeps_dicts w w' \<and> valid self w \<longrightarrow>
        valid self w' \<and> at w' (default_opts self) = at w (default_opts self))
   \<and> (at w' (default_opts self) = at w (default_opts self) \<longrightarrow>
        fst (batch self command jobname logfile opts w')
          = fst (batch self command jobname logfile opts w))
   \<and> (valid self w \<and> batch self command jobname logfile opts w = (rb, w') \<longrightarrow>
        fst (batch self command jobname logfile opts w') = rb)"
proof (intro conjI impI)
  assume a: "Batch_init c kwargs w = (self0, w')"
  then show "keeps_dicts w w'" using init_keeps(5) [of w c kwargs] by simp
  from a show "default_opts self0 = length (heap w)" by (auto simp: Batch_init_eq)
  from a show "at w' (default_opts self0)
          = odict_update (at w (defaults_of c)) (snd (odict_pop kwargs ''max_jobs''))"
    by (auto simp: Batch_init_eq at_def)
next
  assume "factory queue kwargs w = (rf, w')"
  then show "keeps_dicts w w'" using factory_keeps [of w queue kwargs] by simp
next
  assume "parse_options self opts w = (rp, w')"
  then show "keeps_dicts w w'" using parse_options_keeps [of w self opts] by simp
next
  assume "batch self command jobname logfile opts w = (rb, w')"
  then show "keeps_dicts w w'" using batch_keeps [of w self command jobname logfile opts] by simp
next
  assume "throttle self sh mj sleep w = Some (rt, w')"
  then show "heap w' = heap w" by (rule throttle_heap)
next
  assume "submit self sh command jobname logfile opts w = Some (rs, w')"
  then show "keeps_dicts w w'" by (rule submit_keeps)
next
  assume "keeps_dicts w w' \<and> pristine w"
  then show "pristine w'" using keeps_dicts_pristine by blast
next
  assume a: "keeps_dicts w w' \<and> valid self w"
  then have "default_opts self < length (heap w') \<and> at w' (default_opts self) = at w (default_opts self)"
    by (intro keeps_dicts_at) (simp_all add: valid_def)
  then show "valid self w'" and "at w' (default_opts self) = at w (default_opts self)"
    by (simp_all add: valid_def)
next
  assume "at w' (default_opts self) = at w (default_opts self)"
  then show "fst (batch self command jobname logfile opts w')
          = fst (batch self command jobname logfile opts w)"
    by (rule batch_fst)
next
  assume a: "valid self w \<and> batch self command jobname logfile opts w = (rb, w')"
  with batch_keeps [of w self command jobname logfile opts] have "keeps_dicts w w'" by simp
  with a have "at w' (default_opts self) = at w (default_opts self)"
    using keeps_dicts_at [of w w' "default_opts self"] by (simp add: valid_def)
  from batch_fst [OF this] a show "fst (batch self command jobname logfile opts w') = rb" by simp
qed

theorem no_shared_mutation_witness:
  "pristine example_world \<and> valid example_lsf example_world
   \<and> (case Batch_init LSF [(''C'', VInt 1)] example_world of
         (self0, w') \<Rightarrow> keeps_dicts example_world w' \<and> pristine w'
           \<and> default_opts self0 = 4
           \<and> at w' (default_opts self0) = [(''R'', VStr ''\"scratch > 1 && rhel60\"''), (''C'', VInt 1)]
           \<and> at w' 1 = LSF_defaults)
   \<and> (case factory (Some ''lsf'') [] example_world of
         (rf, w') \<Rightarrow> keeps_dicts example_world w')
   \<and> (case batch example_lsf ''run'' VNone VNone [(''n'', VInt 4)] example_world of
         (rb, w') \<Rightarrow>
           keeps_dicts example_world w' \<and> pristine w' \<and> valid example_lsf w'
           \<and> at w' (default_opts example_lsf) = at example_world (default_opts example_lsf)
           \<and> fst (batch example_lsf ''run'' VNone VNone [(''n'', VInt 4)] w') = rb
           \<and> rb = Inr ''bsub -R \"scratch > 1 && rhel60\" -R \"span[ptile=4]\" -C 0 -n 4 -W 4:00  run'')
   \<and> (case parse_options example_lsf [(''n'', VInt 4)] example_world of
         (rp, w') \<Rightarrow> keeps_dicts example_world w')
   \<and> (\<exists>rt w'. throttle example_lsf draining_queue VNone 60 example_world = Some (rt, w')
         \<and> heap w' = heap example_world)
   \<and> (\<exists>rs w'. submit example_lsf draining_queue ''run'' VNone VNone [] example_world = Some (rs, w')
         \<and> keeps_dicts example_world w')"
proof -
  note T = no_shared_mutation
  have p: "pristine example_world" by (rule ex_pristine)
  have v: "valid example_lsf example_world" by (rule ex_valid)
  obtain self0 w1 where i: "Batch_init LSF [(''C'', VInt 1)] example_world = (self0, w1)"
    by (cases "Batch_init LSF [(''C'', VInt 1)] example_world")
  note Ti = T [where c = LSF and kwargs = "[(''C'', VInt 1)]" and w = example_world
      and ?self0.0 = self0 and w' = w1]
  from Ti [THEN conjunct1, rule_format, OF i] have k1: "keeps_dicts example_world w1"
    and a1: "default_opts self0 = length (heap example_world)"
    and c1: "at w1 (default_opts self0)
          = odict_update (at example_world (defaults_of LSF)) (snd (odict_pop [(''C'', VInt 1)] ''max_jobs''))"
    by blast+
  from Ti [THEN conjunct2, THEN conjunct2, THEN conjunct2, THEN conjunct2, THEN conjunct2,
      THEN conjunct2, THEN conjunct1] k1 p
  have p1: "pristine w1" by simp
  from a1 have a1': "default_opts self0 = 4" by (simp add: example_world_def class_dicts_def)
  from c1 have c1': "at w1 (default_opts self0) = [(''R'', VStr ''\"scratch > 1 && rhel60\"''), (''C'', VInt 1)]"
    using pristine_cells [OF p] by (simp add: odict_pop_def LSF_defaults_def)
  from pristine_cells [OF p1] have l1: "at w1 1 = LSF_defaults" by simp
  have A: "case Batch_init LSF [(''C'', VInt 1)] example_world of
         (self0, w') \<Rightarrow> keeps_dicts example_world w' \<and> pristine w'
           \<and> default_opts self0 = 4
           \<and> at w' (default_opts self0) = [(''R'', VStr ''\"scratch > 1 && rhel60\"''), (''C'', VInt 1)]
           \<and> at w' 1 = LSF_defaults"
    using k1 p1 a1' c1' l1 by (simp only: i split_conv simp_thms)
  obtain rf w2 where f: "factory (Some ''lsf'') [] example_world = (rf, w2)"
    by (cases "factory (Some ''lsf'') [] example_world")
  from T [where queue = "Some ''lsf''" and kwargs = "[]" and w = example_world and rf = rf and w' = w2,
      THEN conjunct2, THEN conjunct1] f
  have B: "case factory (Some ''lsf'') [] example_world of (rf, w') \<Rightarrow> keeps_dicts example_world w'"
    by simp
  obtain rb w3 where b: "batch example_lsf ''run'' VNone VNone [(''n'', VInt 4)] example_world = (rb, w3)"
    by (cases "batch example_lsf ''run'' VNone VNone [(''n'', VInt 4)] example_world")
  note Tb = T [where self = example_lsf and command = "''run''" and jobname = VNone
      and logfile = VNone and opts = "[(''n'', VInt 4)]" and w = example_world and rb = rb and w' = w3]
  from Tb [THEN conjunct2, THEN conjunct2, THEN conjunct2, THEN conjunct1] b
  have k3: "keeps_dicts example_world w3" by simp
  from Tb [THEN conjunct2, THEN conjunct2, THEN conjunct2, THEN conjunct2, THEN conjunct2,
      THEN conjunct2, THEN conjunct1] k3 p
  have p3: "pristine w3" by simp
  from Tb [THEN conjunct2, THEN conjunct2, THEN conjunct2, THEN conjunct2, THEN conjunct2,
      THEN conjunct2, THEN conjunct2, THEN conjunct1] k3 v
  have v3: "valid example_lsf w3"
    and c3: "at w3 (default_opts example_lsf) = at example_world (default_opts example_lsf)"
    by simp_all
  from Tb [THEN conjunct2, THEN conjunct2, THEN conjunct2, THEN conjunct2, THEN conjunct2,
      THEN conjunct2, THEN conjunct2, THEN conjunct2, THEN conjunct2] v b
  have r3: "fst (batch example_lsf ''run'' VNone VNone [(''n'', VInt 4)] w3) = rb" by simp
  have "fst (batch example_lsf ''run'' VNone VNone [(''n'', VInt 4)] example_world)
      = Inr ''bsub -R \"scratch > 1 && rhel60\" -R \"span[ptile=4]\" -C 0 -n 4 -W 4:00  run''"
    by (simp add: batch_def remap_options_def parse_options_def example_lsf_def example_world_def
      LSF_parse_options_def add_mpiopts_def initial_world_def class_dicts_def heap_ops Let_def
      odict_keys_def LSF_defaults_def runlimit_eq mpiopts_eq RUNLIMITS_def MPIOPTS_def odict_get_def
      odict_setdefault_def join_options_def str_of_int_def digit_def odict_pop_def)
  with b have e3: "rb = Inr ''bsub -R \"scratch > 1 && rhel60\" -R \"span[ptile=4]\" -C 0 -n 4 -W 4:00  run''"
    by simp
  have C: "case batch example_lsf ''run'' VNone VNone [(''n'', VInt 4)] example_world of
         (rb, w') \<Rightarrow>
           keeps_dicts example_world w' \<and> pristine w' \<and> valid example_lsf w'
           \<and> at w' (default_opts example_lsf) = at example_world (default_opts example_lsf)
           \<and> fst (batch example_lsf ''run'' VNone VNone [(''n'', VInt 4)] w') = rb
           \<and> rb = Inr ''bsub -R \"scratch > 1 && rhel60\" -R \"span[ptile=4]\" -C 0 -n 4 -W 4:00  run''"
    using k3 p3 v3 c3 r3 e3 by (simp only: b split_conv simp_thms)
  obtain rp w4 where q: "parse_options example_lsf [(''n'', VInt 4)] example_world = (rp, w4)"
    by (cases "parse_options example_lsf [(''n'', VInt 4)] example_world")
  from T [where self = example_lsf and opts = "[(''n'', VInt 4)]" and w = example_world
      and rp = rp and w' = w4, THEN conjunct2, THEN conjunct2, THEN conjunct1] q
  have D: "case parse_options example_lsf [(''n'', VInt 4)] example_world of
         (rp, w') \<Rightarrow> keeps_dicts example_world w'"
    by simp
  from T [where self = example_lsf and sh = draining_queue and mj = VNone and sleep = 60
      and w = example_world and rt = "Inl bytes_split_error"
      and w' = "example_world\<lparr>popens := Suc (popens example_world)\<rparr>",
      THEN conjunct2, THEN conjunct2, THEN conjunct2, THEN conjunct2, THEN conjunct1] ex_throttle
  have "heap (example_world\<lparr>popens := Suc (popens example_world)\<rparr>) = heap example_world"
    by simp
  with ex_throttle
  have E: "\<exists>rt w'. throttle example_lsf draining_queue VNone 60 example_world = Some (rt, w')
         \<and> heap w' = heap example_world"
    by blast
  have "\<exists>rs w'. submit example_lsf draining_queue ''run'' VNone VNone [] example_world = Some (rs, w')"
  proof -
    have c: "cls example_lsf \<noteq> Local" and m: "max_jobs example_lsf = VInt 2"
      by (simp_all add: example_lsf_def)
    have "draining_queue (jobs_cmd example_lsf) (popens example_world') \<noteq> []"
      by (simp add: draining_queue_def listing_def)
    from throttle_loop_raises [where sh = draining_queue and w = example_world', OF c this] m
    have "throttle example_lsf draining_queue VNone 60 example_world'
        = Some (Inl bytes_split_error, example_world'\<lparr>popens := Suc (popens example_world')\<rparr>)"
      by (simp add: throttle_ceiling)
    then show ?thesis by (simp add: submit_throttle [OF ex_batch])
  qed
  then obtain rs w5 where s: "submit example_lsf draining_queue ''run'' VNone VNone [] example_world = Some (rs, w5)"
    by blast
  from T [where self = example_lsf and sh = draining_queue and command = "''run''" and jobname = VNone
      and logfile = VNone and opts = "[]" and w = example_world and rs = rs and w' = w5,
      THEN conjunct2, THEN conjunct2, THEN conjunct2, THEN conjunct2, THEN conjunct2, THEN conjunct1] s
  have "keeps_dicts example_world w5" by simp
  with s have F: "\<exists>rs w'. submit example_lsf draining_queue ''run'' VNone VNone [] example_world = Some (rs, w')
         \<and> keeps_dicts example_world w'"
    by blast
  from p v A B C D E F show ?thesis by (intro conjI)
qed

end
